theory Spec2Isabelle
  imports Main "HOL-Library.Word"
begin

section \<open>JavaScript strings\<close>

text \<open>
  A JavaScript string is a sequence of UTF-16 code units. ASCII literals of the source
  are written \<open>js ''...''\<close>; the Korean literals are spelled out as code units.
\<close>

type_synonym jstring = "16 word list"

definition js :: "string \<Rightarrow> jstring" where
  "js cs = map (\<lambda>c. of_nat (of_char c)) cs"

text \<open>\<^verbatim>\<open>s.includes(t)\<close>: \<open>t\<close> occurs in \<open>s\<close> as a contiguous run of code units.\<close>

fun starts_with :: "jstring \<Rightarrow> jstring \<Rightarrow> bool" where
  "starts_with s [] = True"
| "starts_with [] (y # ys) = False"
| "starts_with (x # xs) (y # ys) = (x = y \<and> starts_with xs ys)"

fun js_includes :: "jstring \<Rightarrow> jstring \<Rightarrow> bool" where
  "js_includes [] t = (t = [])"
| "js_includes (x # xs) t = (starts_with (x # xs) t \<or> js_includes xs t)"

text \<open>
  \<^verbatim>\<open>s.trim()\<close> removes WhiteSpace and LineTerminator code units from both ends
  (ECMAScript: TAB, LF, VT, FF, CR, SP, NBSP, U+1680, U+2000..U+200A, U+2028, U+2029,
  U+202F, U+205F, U+3000, U+FEFF).
\<close>

definition js_space :: "16 word \<Rightarrow> bool" where
  "js_space c = (c \<in> {0x0009, 0x000A, 0x000B, 0x000C, 0x000D, 0x0020, 0x00A0, 0x1680,
                      0x2000, 0x2001, 0x2002, 0x2003, 0x2004, 0x2005, 0x2006, 0x2007,
                      0x2008, 0x2009, 0x200A, 0x2028, 0x2029, 0x202F, 0x205F, 0x3000,
                      0xFEFF})"

definition trim :: "jstring \<Rightarrow> jstring" where
  "trim s = rev (dropWhile js_space (rev (dropWhile js_space s)))"

text \<open>Decimal rendering of an array index inside a template literal.\<close>

definition digit :: "nat \<Rightarrow> 16 word" where
  "digit d = 0x30 + of_nat d"

function show_nat :: "nat \<Rightarrow> jstring" where
  "show_nat n = (if n < 10 then [digit n] else show_nat (n div 10) @ [digit (n mod 10)])"
  by pat_completeness auto
termination
  by (relation "measure id") auto

declare show_nat.simps [simp del]

text \<open>\<^verbatim>\<open>xs.join(sep)\<close>.\<close>

fun join :: "jstring \<Rightarrow> jstring list \<Rightarrow> jstring" where
  "join sep [] = []"
| "join sep [x] = x"
| "join sep (x # y # ys) = x @ sep @ join sep (y # ys)"

section \<open>Values, exceptions and the simulated browser\<close>

text \<open>
  The value read from \<^verbatim>\<open>args.title\<close>: the string the input schema asks for, or
  \<^verbatim>\<open>undefined\<close> when the field is absent. \<open>to_text\<close> is its conversion inside a
  template literal.
\<close>

datatype jsval = JUndefined | JStr jstring

fun to_text :: "jsval \<Rightarrow> jstring" where
  "to_text JUndefined = js ''undefined''"
| "to_text (JStr s) = s"

text \<open>
  A thrown value is an Error object with a name and a message; \<open>exn_text\<close> is
  \<^verbatim>\<open>Error.prototype.toString\<close>, which is what \<^verbatim>\<open>${e}\<close> produces.
\<close>

datatype exn = JsError jstring jstring

fun exn_text :: "exn \<Rightarrow> jstring" where
  "exn_text (JsError name msg) =
     (if name = [] then msg else if msg = [] then name else name @ js '': '' @ msg)"

type_synonym handle = nat
type_synonym elem = nat

text \<open>The calls on a page that return nothing.\<close>

datatype cmd =
    Goto jstring jstring
  | WaitForSelector jstring nat
  | TypeInto jstring jstring
  | Click jstring
  | WaitForNavigation jstring
  | KeyboardType jsval
  | KeyboardPress jstring

text \<open>Every call made to the automation library, in the order it is made.\<close>

datatype action =
    Launch bool "jstring list"
  | NewPage handle
  | PageCmd handle cmd
  | QueryAll handle jstring
  | ElemText elem
  | ElemClick elem
  | EvalAll handle jstring

text \<open>
  The automation library and the site behind it are outside the repository. They are a
  parameter: a deterministic simulation that answers each call from the history of the
  calls made so far. An answer is a thrown exception or a value.
\<close>

record world =
  penv :: "string \<Rightarrow> jstring option"
  launch_res :: "action list \<Rightarrow> exn + handle"
  newPage_res :: "action list \<Rightarrow> handle \<Rightarrow> exn + handle"
  cmd_res :: "action list \<Rightarrow> handle \<Rightarrow> cmd \<Rightarrow> exn option"
  url_res :: "action list \<Rightarrow> handle \<Rightarrow> jstring"
  query_res :: "action list \<Rightarrow> handle \<Rightarrow> jstring \<Rightarrow> exn + elem list"
  text_res :: "action list \<Rightarrow> elem \<Rightarrow> exn + jstring option"
  click_res :: "action list \<Rightarrow> elem \<Rightarrow> exn option"
  evalAll_res :: "action list \<Rightarrow> handle \<Rightarrow> jstring \<Rightarrow> exn + jstring option list"

text \<open>
  The module state: the two module-level variables \<^verbatim>\<open>browser\<close> and \<^verbatim>\<open>page\<close>
  (\<open>None\<close> is \<^verbatim>\<open>null\<close>), and the calls made so far.
\<close>

record mstate =
  browser :: "handle option"
  page :: "handle option"
  trace :: "action list"

section \<open>Sequencing, exceptions\<close>

text \<open>
  An asynchronous function is a state transformer that ends with a thrown exception
  (\<open>Inl\<close>) or a value (\<open>Inr\<close>). \<open>await m k\<close> is \<^verbatim>\<open>x = await m; k x\<close>: an exception of
  \<open>m\<close> skips \<open>k\<close>. \<open>try_catch m h\<close> is \<^verbatim>\<open>try { m } catch (e) { h e }\<close>.
\<close>

type_synonym 'a prog = "mstate \<Rightarrow> (exn + 'a) \<times> mstate"

definition ret :: "'a \<Rightarrow> 'a prog" where
  "ret x = (\<lambda>s. (Inr x, s))"

definition throw :: "exn \<Rightarrow> 'a prog" where
  "throw e = (\<lambda>s. (Inl e, s))"

definition await :: "'a prog \<Rightarrow> ('a \<Rightarrow> 'b prog) \<Rightarrow> 'b prog" where
  "await m k = (\<lambda>s. case m s of (Inl e, s') \<Rightarrow> (Inl e, s') | (Inr x, s') \<Rightarrow> k x s')"

definition try_catch :: "'a prog \<Rightarrow> (exn \<Rightarrow> 'a prog) \<Rightarrow> 'a prog" where
  "try_catch m h = (\<lambda>s. case m s of (Inl e, s') \<Rightarrow> h e s' | (Inr x, s') \<Rightarrow> (Inr x, s'))"

definition record_call :: "action \<Rightarrow> mstate \<Rightarrow> mstate" where
  "record_call a s = s\<lparr>trace := trace s @ [a]\<rparr>"

section \<open>The calls on the library\<close>

text \<open>A method call on \<^verbatim>\<open>null\<close> throws a TypeError before anything reaches the library.\<close>

definition null_deref :: "jstring \<Rightarrow> exn" where
  "null_deref prop =
     JsError (js ''TypeError'')
       (js ''Cannot read properties of null (reading '' @ [0x0027] @ prop @ [0x0027] @ js '')'')"

fun cmd_property :: "cmd \<Rightarrow> jstring" where
  "cmd_property (Goto u w) = js ''goto''"
| "cmd_property (WaitForSelector sel t) = js ''waitForSelector''"
| "cmd_property (TypeInto sel txt) = js ''type''"
| "cmd_property (Click sel) = js ''click''"
| "cmd_property (WaitForNavigation w) = js ''waitForNavigation''"
| "cmd_property (KeyboardType v) = js ''keyboard''"
| "cmd_property (KeyboardPress k) = js ''keyboard''"

definition puppeteer_launch :: "world \<Rightarrow> bool \<Rightarrow> jstring list \<Rightarrow> handle prog" where
  "puppeteer_launch w headless args = (\<lambda>s.
     (launch_res w (trace s), record_call (Launch headless args) s))"

definition browser_newPage :: "world \<Rightarrow> handle \<Rightarrow> handle prog" where
  "browser_newPage w b = (\<lambda>s. (newPage_res w (trace s) b, record_call (NewPage b) s))"

definition page_cmd :: "world \<Rightarrow> handle option \<Rightarrow> cmd \<Rightarrow> unit prog" where
  "page_cmd w p c = (\<lambda>s.
     case p of
       None \<Rightarrow> (Inl (null_deref (cmd_property c)), s)
     | Some h \<Rightarrow>
         (case cmd_res w (trace s) h c of
            Some e \<Rightarrow> (Inl e, record_call (PageCmd h c) s)
          | None \<Rightarrow> (Inr (), record_call (PageCmd h c) s)))"

definition page_url :: "world \<Rightarrow> handle option \<Rightarrow> jstring prog" where
  "page_url w p = (\<lambda>s.
     case p of
       None \<Rightarrow> (Inl (null_deref (js ''url'')), s)
     | Some h \<Rightarrow> (Inr (url_res w (trace s) h), s))"

definition page_queryAll :: "world \<Rightarrow> handle option \<Rightarrow> jstring \<Rightarrow> elem list prog" where
  "page_queryAll w p sel = (\<lambda>s.
     case p of
       None \<Rightarrow> (Inl (null_deref (js ''$$'')), s)
     | Some h \<Rightarrow> (query_res w (trace s) h sel, record_call (QueryAll h sel) s))"

definition page_evalAll :: "world \<Rightarrow> handle option \<Rightarrow> jstring \<Rightarrow> jstring option list prog" where
  "page_evalAll w p sel = (\<lambda>s.
     case p of
       None \<Rightarrow> (Inl (null_deref (js ''$$eval'')), s)
     | Some h \<Rightarrow> (evalAll_res w (trace s) h sel, record_call (EvalAll h sel) s))"

definition elem_textContent :: "world \<Rightarrow> elem \<Rightarrow> jstring option prog" where
  "elem_textContent w el = (\<lambda>s. (text_res w (trace s) el, record_call (ElemText el) s))"

definition elem_click :: "world \<Rightarrow> elem \<Rightarrow> unit prog" where
  "elem_click w el = (\<lambda>s.
     case click_res w (trace s) el of
       Some e \<Rightarrow> (Inl e, record_call (ElemClick el) s)
     | None \<Rightarrow> (Inr (), record_call (ElemClick el) s))"

section \<open>The module\<close>

text \<open>\<^verbatim>\<open>process.env.X || ""\<close>: an unset variable reads as the empty string.\<close>

definition env_or_empty :: "world \<Rightarrow> string \<Rightarrow> jstring" where
  "env_or_empty w k = (case penv w k of None \<Rightarrow> [] | Some v \<Rightarrow> v)"

definition GOOGLE_EMAIL :: "world \<Rightarrow> jstring" where
  "GOOGLE_EMAIL w = env_or_empty w ''GOOGLE_EMAIL''"

definition GOOGLE_PASSWORD :: "world \<Rightarrow> jstring" where
  "GOOGLE_PASSWORD w = env_or_empty w ''GOOGLE_PASSWORD''"

text \<open>The module starts with both variables \<^verbatim>\<open>null\<close> and no call made.\<close>

definition initial :: mstate where
  "initial = \<lparr>browser = None, page = None, trace = []\<rparr>"

text \<open>
  \<^verbatim>\<open>initBrowser\<close>. The assignment to \<^verbatim>\<open>browser\<close> happens when the launch has
  returned, the one to \<^verbatim>\<open>page\<close> when \<^verbatim>\<open>newPage\<close> has; \<^verbatim>\<open>page!\<close> is erased by
  the compiler, so a \<^verbatim>\<open>null\<close> page is returned as it is.
\<close>

definition get_browser :: "handle option prog" where
  "get_browser = (\<lambda>s. (Inr (browser s), s))"

definition set_browser :: "handle \<Rightarrow> unit prog" where
  "set_browser b = (\<lambda>s. (Inr (), s\<lparr>browser := Some b\<rparr>))"

definition get_page :: "handle option prog" where
  "get_page = (\<lambda>s. (Inr (page s), s))"

definition set_page :: "handle \<Rightarrow> unit prog" where
  "set_page pg = (\<lambda>s. (Inr (), s\<lparr>page := Some pg\<rparr>))"

definition initBrowser :: "world \<Rightarrow> handle option prog" where
  "initBrowser w =
     await get_browser (\<lambda>br.
     await (if br = None then
              await (puppeteer_launch w False
                       [js ''--no-sandbox'', js ''--disable-setuid-sandbox'']) (\<lambda>b.
              await (set_browser b) (\<lambda>_.
              await (browser_newPage w b) (\<lambda>pg.
              set_page pg)))
            else ret ()) (\<lambda>_.
     get_page))"


text \<open>\<^verbatim>\<open>loginToGoogle\<close>. The second \<^verbatim>\<open>page.url()\<close> is read only when the first test holds.\<close>

definition APP_URL :: jstring where
  "APP_URL = js ''https://notebooklm.google.com''"

definition NETWORKIDLE2 :: jstring where
  "NETWORKIDLE2 = js ''networkidle2''"

definition EMAIL_INPUT :: jstring where
  "EMAIL_INPUT = js ''input[type='' @ [0x0022] @ js ''email'' @ [0x0022] @ js '']''"

definition PASSWORD_INPUT :: jstring where
  "PASSWORD_INPUT = js ''input[type='' @ [0x0022] @ js ''password'' @ [0x0022] @ js '']''"

definition loginToGoogle :: "world \<Rightarrow> handle option \<Rightarrow> unit prog" where
  "loginToGoogle w p =
     await (page_cmd w p (Goto APP_URL NETWORKIDLE2)) (\<lambda>_.
     await (page_url w p) (\<lambda>u1.
     await (if js_includes u1 (js ''notebooklm.google.com'')
            then await (page_url w p) (\<lambda>u2. ret (\<not> js_includes u2 (js ''accounts.google.com'')))
            else ret False) (\<lambda>logged_in.
     if logged_in then ret ()
     else
       await (page_cmd w p (WaitForSelector EMAIL_INPUT 10000)) (\<lambda>_.
       await (page_cmd w p (TypeInto EMAIL_INPUT (GOOGLE_EMAIL w))) (\<lambda>_.
       await (page_cmd w p (Click (js ''#identifierNext''))) (\<lambda>_.
       await (page_cmd w p (WaitForSelector PASSWORD_INPUT 10000)) (\<lambda>_.
       await (page_cmd w p (TypeInto PASSWORD_INPUT (GOOGLE_PASSWORD w))) (\<lambda>_.
       await (page_cmd w p (Click (js ''#passwordNext''))) (\<lambda>_.
       page_cmd w p (WaitForNavigation NETWORKIDLE2))))))))))"

text \<open>
  \<^verbatim>\<open>createNotebook\<close>. \<open>scan_buttons\<close> is the \<^verbatim>\<open>for\<close> loop over the buttons: it
  reads each button's \<^verbatim>\<open>textContent\<close> (\<open>None\<close> is \<^verbatim>\<open>null\<close>), clicks the first one
  whose text is truthy and contains the label, and stops there.
  \<open>createNotebook_body\<close> is the body of the \<^verbatim>\<open>try\<close> block.
\<close>

definition NEW_NOTEBOOK_WAIT :: jstring where
  "NEW_NOTEBOOK_WAIT =
     js ''[aria-label='' @ [0x0022] @ js ''New notebook'' @ [0x0022] @ js ''], button[jsname]''"

definition TITLE_INPUT :: jstring where
  "TITLE_INPUT = js ''input[placeholder], input[aria-label]''"

definition button_matches :: "jstring option \<Rightarrow> bool" where
  "button_matches txt =
     (case txt of None \<Rightarrow> False | Some t \<Rightarrow> t \<noteq> [] \<and> js_includes t (js ''New notebook''))"

fun scan_buttons :: "world \<Rightarrow> elem list \<Rightarrow> unit prog" where
  "scan_buttons w [] = ret ()"
| "scan_buttons w (btn # rest) =
     await (elem_textContent w btn) (\<lambda>txt.
     if button_matches txt then elem_click w btn
     else scan_buttons w rest)"

definition created_message :: "jsval \<Rightarrow> jstring" where
  "created_message title =
     [0xB178, 0xD2B8, 0xBD81] @ js '' '' @ [0x0022] @ to_text title @
     [0x0022] @ js '' '' @ [0xC0DD, 0xC131] @ js '' '' @ [0xC644, 0xB8CC] @ js ''!''"

definition create_failed_message :: "exn \<Rightarrow> jstring" where
  "create_failed_message e =
     [0xB178, 0xD2B8, 0xBD81] @ js '' '' @ [0xC0DD, 0xC131] @ js '' '' @ [0xC911] @ js '' '' @
     [0xC624, 0xB958] @ js '' '' @ [0xBC1C, 0xC0DD] @ js '': '' @ exn_text e @
     js ''. NotebookLM '' @ [0xD398, 0xC774, 0xC9C0, 0xB97C] @ js '' '' @ [0xC9C1, 0xC811] @
     js '' '' @ [0xD655, 0xC778, 0xD574, 0xC8FC, 0xC138, 0xC694] @ js ''.''"

definition createNotebook_body :: "world \<Rightarrow> jsval \<Rightarrow> handle option \<Rightarrow> jstring prog" where
  "createNotebook_body w title p =
     await (page_cmd w p (WaitForSelector NEW_NOTEBOOK_WAIT 8000)) (\<lambda>_.
     await (page_queryAll w p (js ''button'')) (\<lambda>buttons.
     await (scan_buttons w buttons) (\<lambda>_.
     await (page_cmd w p (WaitForSelector TITLE_INPUT 5000)) (\<lambda>_.
     await (page_cmd w p (KeyboardType title)) (\<lambda>_.
     await (page_cmd w p (KeyboardPress (js ''Enter''))) (\<lambda>_.
     ret (created_message title)))))))"

definition createNotebook :: "world \<Rightarrow> jsval \<Rightarrow> jstring prog" where
  "createNotebook w title =
     await (initBrowser w) (\<lambda>p.
     await (loginToGoogle w p) (\<lambda>_.
     await (page_cmd w p (Goto APP_URL NETWORKIDLE2)) (\<lambda>_.
     try_catch (createNotebook_body w title p) (\<lambda>e. ret (create_failed_message e)))))"

text \<open>
  \<^verbatim>\<open>listNotebooks\<close>. The library hands the callback the matched elements; the
  simulation gives their \<^verbatim>\<open>textContent\<close>, and \<open>notebook_titles\<close> is the callback:
  \<^verbatim>\<open>?.trim()\<close> on each (\<^verbatim>\<open>undefined\<close> for \<^verbatim>\<open>null\<close>), then \<^verbatim>\<open>filter(Boolean)\<close>.
\<close>

definition NOTEBOOK_TITLES :: jstring where
  "NOTEBOOK_TITLES =
     js ''[data-testid='' @ [0x0022] @ js ''notebook-title'' @ [0x0022] @
     js ''], .notebook-title, h3''"

fun truthy :: "jsval \<Rightarrow> bool" where
  "truthy JUndefined = False"
| "truthy (JStr s) = (s \<noteq> [])"

definition trimmed_text :: "jstring option \<Rightarrow> jsval" where
  "trimmed_text txt = (case txt of None \<Rightarrow> JUndefined | Some s \<Rightarrow> JStr (trim s))"

definition notebook_titles :: "jstring option list \<Rightarrow> jsval list" where
  "notebook_titles els = filter truthy (map trimmed_text els)"

definition numbered :: "jsval list \<Rightarrow> jstring list" where
  "numbered notebooks =
     map (\<lambda>(i, n). show_nat (i + 1) @ js ''. '' @ to_text n) (enumerate 0 notebooks)"

definition no_notebooks_message :: jstring where
  "no_notebooks_message =
     [0xB178, 0xD2B8, 0xBD81, 0xC774] @ js '' '' @ [0xC5C6, 0xAC70, 0xB098] @ js '' '' @
     [0xBAA9, 0xB85D, 0xC744] @ js '' '' @ [0xBD88, 0xB7EC, 0xC624, 0xC9C0] @ js '' '' @
     [0xBABB, 0xD588, 0xC2B5, 0xB2C8, 0xB2E4] @ js ''.''"

definition list_header :: jstring where
  "list_header = [0xB178, 0xD2B8, 0xBD81] @ js '' '' @ [0xBAA9, 0xB85D] @ js '':'' @ [0x000A]"

definition list_failed_message :: "exn \<Rightarrow> jstring" where
  "list_failed_message e =
     [0xBAA9, 0xB85D] @ js '' '' @ [0xBD88, 0xB7EC, 0xC624, 0xAE30] @ js '' '' @
     [0xC624, 0xB958] @ js '': '' @ exn_text e"

definition listNotebooks_body :: "world \<Rightarrow> handle option \<Rightarrow> jstring prog" where
  "listNotebooks_body w p =
     await (page_evalAll w p NOTEBOOK_TITLES) (\<lambda>els.
     let notebooks = notebook_titles els in
     if length notebooks = 0 then ret no_notebooks_message
     else ret (list_header @ join [0x000A] (numbered notebooks)))"

definition listNotebooks :: "world \<Rightarrow> jstring prog" where
  "listNotebooks w =
     await (initBrowser w) (\<lambda>p.
     await (loginToGoogle w p) (\<lambda>_.
     await (page_cmd w p (Goto APP_URL NETWORKIDLE2)) (\<lambda>_.
     try_catch (listNotebooks_body w p) (\<lambda>e. ret (list_failed_message e)))))"

section \<open>The protocol adapter\<close>

text \<open>The catalog returned by the list-tools handler.\<close>

record schema_property =
  property_type :: jstring
  property_description :: jstring

record input_schema =
  schema_type :: jstring
  properties :: "(jstring \<times> schema_property) list"
  required :: "jstring list option"

record tool =
  name :: jstring
  description :: jstring
  inputSchema :: input_schema

definition listTools :: "tool list" where
  "listTools =
     [\<lparr>name = js ''create_notebook'',
       description =
         [0xC0C8, 0xB85C, 0xC6B4] @ js '' NotebookLM '' @
         [0xD504, 0xB85C, 0xC81D, 0xD2B8, 0xB97C] @ js '' '' @
         [0xC0DD, 0xC131, 0xD569, 0xB2C8, 0xB2E4] @ js ''.'',
       inputSchema =
         \<lparr>schema_type = js ''object'',
          properties =
            [(js ''title'',
              \<lparr>property_type = js ''string'',
               property_description = [0xB178, 0xD2B8, 0xBD81] @ js '' '' @ [0xC81C, 0xBAA9]\<rparr>)],
          required = Some [js ''title'']\<rparr>\<rparr>,
      \<lparr>name = js ''list_notebooks'',
       description =
         [0xD604, 0xC7AC] @ js '' NotebookLM'' @ [0xC758] @ js '' '' @
         [0xB178, 0xD2B8, 0xBD81] @ js '' '' @ [0xBAA9, 0xB85D, 0xC744] @ js '' '' @
         [0xAC00, 0xC838, 0xC635, 0xB2C8, 0xB2E4] @ js ''.'',
       inputSchema = \<lparr>schema_type = js ''object'', properties = [], required = None\<rparr>\<rparr>,
      \<lparr>name = js ''open_notebooklm'',
       description =
         [0xBE0C, 0xB77C, 0xC6B0, 0xC800, 0xC5D0, 0xC11C] @ js '' NotebookLM'' @ [0xC744] @
         js '' '' @ [0xC5FD, 0xB2C8, 0xB2E4] @ js ''.'',
       inputSchema = \<lparr>schema_type = js ''object'', properties = [], required = None\<rparr>\<rparr>]"

text \<open>
  The call handler. \<open>params_arguments\<close> is \<open>None\<close> when the request carries no
  \<^verbatim>\<open>arguments\<close>, and otherwise the value its \<^verbatim>\<open>title\<close> property reads as; reading
  \<^verbatim>\<open>.title\<close> of \<^verbatim>\<open>undefined\<close> throws a TypeError. A response is the list of its
  content items.
\<close>

record request =
  params_name :: jstring
  params_arguments :: "jsval option"

record content_item =
  item_type :: jstring
  item_text :: jstring

record response =
  content :: "content_item list"

definition text_response :: "jstring \<Rightarrow> response" where
  "text_response result = \<lparr>content = [\<lparr>item_type = js ''text'', item_text = result\<rparr>]\<rparr>"

definition opened_message :: jstring where
  "opened_message =
     js ''NotebookLM'' @ [0xC744] @ js '' '' @ [0xBE0C, 0xB77C, 0xC6B0, 0xC800, 0xC5D0, 0xC11C] @
     js '' '' @ [0xC5F4, 0xC5C8, 0xC2B5, 0xB2C8, 0xB2E4] @ js ''.''"

definition unsupported_tool :: exn where
  "unsupported_tool =
     JsError (js ''Error'')
       ([0xC9C0, 0xC6D0, 0xD558, 0xC9C0] @ js '' '' @ [0xC54A, 0xB294] @ js '' '' @
        [0xB3C4, 0xAD6C, 0xC785, 0xB2C8, 0xB2E4] @ js ''.'')"

definition read_title :: "jsval option \<Rightarrow> jsval prog" where
  "read_title args =
     (case args of
        None \<Rightarrow>
          throw (JsError (js ''TypeError'')
                   (js ''Cannot read properties of undefined (reading '' @ [0x0027] @
                    js ''title'' @ [0x0027] @ js '')''))
      | Some v \<Rightarrow> ret v)"

definition callTool :: "world \<Rightarrow> request \<Rightarrow> response prog" where
  "callTool w request =
     (if params_name request = js ''create_notebook'' then
        await (read_title (params_arguments request)) (\<lambda>title.
        await (createNotebook w title) (\<lambda>result.
        ret (text_response result)))
      else if params_name request = js ''list_notebooks'' then
        await (listNotebooks w) (\<lambda>result.
        ret (text_response result))
      else if params_name request = js ''open_notebooklm'' then
        await (initBrowser w) (\<lambda>p.
        await (loginToGoogle w p) (\<lambda>_.
        ret (text_response opened_message)))
      else throw unsupported_tool)"

section \<open>Notions used in the statements\<close>

text \<open>The launch call, with the options \<^verbatim>\<open>initBrowser\<close> passes.\<close>

definition LAUNCH :: action where
  "LAUNCH = Launch False [js ''--no-sandbox'', js ''--disable-setuid-sandbox'']"

text \<open>
  The steps \<^verbatim>\<open>createNotebook\<close> and \<^verbatim>\<open>listNotebooks\<close> both take before their
  \<^verbatim>\<open>try\<close> block: obtain the page, log in, navigate to the application.
\<close>

definition reach_app :: "world \<Rightarrow> handle option prog" where
  "reach_app w =
     await (initBrowser w) (\<lambda>p.
     await (loginToGoogle w p) (\<lambda>_.
     await (page_cmd w p (Goto APP_URL NETWORKIDLE2)) (\<lambda>_.
     ret p)))"

text \<open>A list of page calls made one after the other, stopping at the first that throws.\<close>

fun run_cmds :: "world \<Rightarrow> handle option \<Rightarrow> cmd list \<Rightarrow> unit prog" where
  "run_cmds w p [] = ret ()"
| "run_cmds w p (c # cs) = await (page_cmd w p c) (\<lambda>_. run_cmds w p cs)"

text \<open>Calls that activate an element: a click on an element or on a selector.\<close>

fun is_click :: "action \<Rightarrow> bool" where
  "is_click (ElemClick el) = True"
| "is_click (PageCmd h (Click sel)) = True"
| "is_click a = False"

text \<open>The invariant of the module state: a browser that is held comes with its page.\<close>

definition page_known :: "mstate \<Rightarrow> bool" where
  "page_known s = (browser s \<noteq> None \<longrightarrow> page s \<noteq> None)"

text \<open>In state \<open>s\<close> the launch would return a browser and the opening of its page throw.\<close>

definition page_creation_throws :: "world \<Rightarrow> mstate \<Rightarrow> bool" where
  "page_creation_throws w s =
     (case launch_res w (trace s) of
        Inl e \<Rightarrow> False
      | Inr b \<Rightarrow>
          (case newPage_res w (trace s @ [LAUNCH]) b of Inl e \<Rightarrow> True | Inr pg \<Rightarrow> False))"

text \<open>A program that assigns neither \<^verbatim>\<open>browser\<close> nor \<^verbatim>\<open>page\<close>.\<close>

definition keeps :: "'a prog \<Rightarrow> bool" where
  "keeps m = (\<forall>s. browser (snd (m s)) = browser s \<and> page (snd (m s)) = page s)"

text \<open>Requests served one after the other, each from the state the previous one left.\<close>

fun run_calls :: "world \<Rightarrow> request list \<Rightarrow> mstate \<Rightarrow> mstate" where
  "run_calls w [] s = s"
| "run_calls w (request # rest) s = run_calls w rest (snd (callTool w request s))"

section \<open>Example simulations\<close>

text \<open>
  A session that is already logged in, where every call succeeds: the browser is 5, its
  page 2; the page has two buttons, neither labelled \<^verbatim>\<open>New notebook\<close>, and five
  elements matching the notebook selectors, three of them with a text.
\<close>

definition all_ok :: world where
  "all_ok =
     \<lparr>penv = (\<lambda>k. if k = ''GOOGLE_EMAIL'' then Some (js ''user@example.com'')
                  else if k = ''GOOGLE_PASSWORD'' then Some (js ''hunter2'') else None),
      launch_res = (\<lambda>l. Inr 5),
      newPage_res = (\<lambda>l b. Inr 2),
      cmd_res = (\<lambda>l h c. None),
      url_res = (\<lambda>l h. js ''https://notebooklm.google.com/''),
      query_res = (\<lambda>l h sel. Inr [7, 8]),
      text_res = (\<lambda>l el. if el = 7 then Inr (Some (js ''Settings'')) else Inr None),
      click_res = (\<lambda>l el. None),
      evalAll_res = (\<lambda>l h sel. Inr [Some (js '' A''), None, Some (js ''B ''), Some (js ''  ''),
                                        Some (js ''C'')])\<rparr>"

text \<open>The state after the first three steps of a handler in that session.\<close>

definition arrived :: mstate where
  "arrived =
     \<lparr>browser = Some 5, page = Some 2,
      trace = [LAUNCH, NewPage 5, PageCmd 2 (Goto APP_URL NETWORKIDLE2),
               PageCmd 2 (Goto APP_URL NETWORKIDLE2)]\<rparr>"

text \<open>The same, with the site answering every navigation with its login page.\<close>

definition login_wall :: world where
  "login_wall = all_ok\<lparr>url_res := (\<lambda>l h. js ''https://accounts.google.com/signin'')\<rparr>"

text \<open>The login page again, where the password field never appears.\<close>

definition no_field :: exn where
  "no_field = JsError (js ''TimeoutError'') (js ''Waiting for selector failed: 10000ms exceeded'')"

definition no_password_field :: world where
  "no_password_field =
     login_wall\<lparr>cmd_res := (\<lambda>l h c. if c = WaitForSelector PASSWORD_INPUT 10000
                                      then Some no_field else None)\<rparr>"

text \<open>The same, with no notebook title on the page.\<close>

definition no_titles :: world where
  "no_titles = all_ok\<lparr>evalAll_res := (\<lambda>l h sel. Inr [None, Some (js '' '')])\<rparr>"

text \<open>The browser cannot be launched.\<close>

definition launch_failed :: exn where
  "launch_failed = JsError (js ''Error'') (js ''Failed to launch the browser process!'')"

definition no_browser :: world where
  "no_browser = all_ok\<lparr>launch_res := (\<lambda>l. Inl launch_failed)\<rparr>"

text \<open>The browser is launched and its page cannot be opened.\<close>

definition page_failed :: exn where
  "page_failed = JsError (js ''ProtocolError'') (js ''Target.createTarget failed'')"

definition no_page :: world where
  "no_page = all_ok\<lparr>newPage_res := (\<lambda>l b. Inl page_failed)\<rparr>"

text \<open>Every call on the page fails.\<close>

definition net_down :: exn where
  "net_down = JsError (js ''Error'') (js ''net::ERR_INTERNET_DISCONNECTED'')"

definition offline :: world where
  "offline = all_ok\<lparr>cmd_res := (\<lambda>l h c. Some net_down)\<rparr>"

text \<open>The title input never appears.\<close>

definition timed_out :: exn where
  "timed_out = JsError (js ''TimeoutError'') (js ''Waiting for selector failed: 5000ms exceeded'')"

definition no_dialog :: world where
  "no_dialog =
     all_ok\<lparr>cmd_res := (\<lambda>l h c. if c = WaitForSelector TITLE_INPUT 5000 then Some timed_out
                                  else None)\<rparr>"

section \<open>Properties\<close>

subsection \<open>Evaluation rules\<close>

lemma js_Nil [simp]: "js [] = []"
  by (simp add: js_def)

lemma js_Cons [simp]: "js (c # cs) = of_nat (of_char c) # js cs"
  by (simp add: js_def)

lemma ret_apply [simp]: "ret x s = (Inr x, s)"
  by (simp add: ret_def)

lemma throw_apply [simp]: "throw e s = (Inl e, s)"
  by (simp add: throw_def)

lemma page_cmd_Some:
  "page_cmd w (Some h) c s =
     (case cmd_res w (trace s) h c of Some e \<Rightarrow> Inl e | None \<Rightarrow> Inr (),
      s\<lparr>trace := trace s @ [PageCmd h c]\<rparr>)"
  by (simp add: page_cmd_def record_call_def split: option.splits)

lemma page_cmd_None: "page_cmd w None c s = (Inl (null_deref (cmd_property c)), s)"
  by (simp add: page_cmd_def)

lemma page_url_Some: "page_url w (Some h) s = (Inr (url_res w (trace s) h), s)"
  by (simp add: page_url_def)

subsection \<open>initBrowser\<close>

lemma initBrowser_reuse:
  "browser s \<noteq> None \<Longrightarrow> initBrowser w s = (Inr (page s), s)"
  by (auto simp: initBrowser_def await_def get_browser_def get_page_def)

lemma initBrowser_first:
  "browser s = None \<Longrightarrow>
   initBrowser w s =
     (case launch_res w (trace s) of
        Inl e \<Rightarrow> (Inl e, s\<lparr>trace := trace s @ [LAUNCH]\<rparr>)
      | Inr b \<Rightarrow>
          (case newPage_res w (trace s @ [LAUNCH]) b of
             Inl e \<Rightarrow> (Inl e, s\<lparr>browser := Some b, trace := trace s @ [LAUNCH, NewPage b]\<rparr>)
           | Inr pg \<Rightarrow>
               (Inr (Some pg),
                s\<lparr>browser := Some b, page := Some pg, trace := trace s @ [LAUNCH, NewPage b]\<rparr>)))"
  by (auto simp: initBrowser_def await_def get_browser_def get_page_def set_browser_def
      set_page_def puppeteer_launch_def browser_newPage_def record_call_def LAUNCH_def
      split: sum.splits)



subsection \<open>loginToGoogle\<close>

text \<open>
  Claim C2. When the opening navigation of \<^verbatim>\<open>loginToGoogle\<close> succeeds and the URL
  read after it contains the application's domain and not the login domain, the function
  returns normally and that navigation is the only call it has made: no wait for a field,
  no typing, no click, no further navigation.
\<close>

theorem loginToGoogle_skip:
  assumes "cmd_res w (trace s) h (Goto APP_URL NETWORKIDLE2) = None"
    and "js_includes (url_res w (trace s @ [PageCmd h (Goto APP_URL NETWORKIDLE2)]) h)
           (js ''notebooklm.google.com'')"
    and "\<not> js_includes (url_res w (trace s @ [PageCmd h (Goto APP_URL NETWORKIDLE2)]) h)
           (js ''accounts.google.com'')"
  shows "loginToGoogle w (Some h) s =
           (Inr (), s\<lparr>trace := trace s @ [PageCmd h (Goto APP_URL NETWORKIDLE2)]\<rparr>)"
  using assms
  by (simp add: loginToGoogle_def await_def page_cmd_Some page_url_Some)

theorem loginToGoogle_skip_witness:
  "cmd_res all_ok [] 2 (Goto APP_URL NETWORKIDLE2) = None \<and>
   js_includes (url_res all_ok [PageCmd 2 (Goto APP_URL NETWORKIDLE2)] 2)
     (js ''notebooklm.google.com'') \<and>
   \<not> js_includes (url_res all_ok [PageCmd 2 (Goto APP_URL NETWORKIDLE2)] 2)
     (js ''accounts.google.com'') \<and>
   loginToGoogle all_ok (Some 2) \<lparr>browser = Some 5, page = Some 2, trace = []\<rparr> =
     (Inr (), \<lparr>browser = Some 5, page = Some 2, trace = [PageCmd 2 (Goto APP_URL NETWORKIDLE2)]\<rparr>)"
proof -
  have a: "cmd_res all_ok (trace \<lparr>browser = Some 5, page = Some 2, trace = []\<rparr>) 2
             (Goto APP_URL NETWORKIDLE2) = None"
    by (simp add: all_ok_def)
  have b: "js_includes
             (url_res all_ok (trace \<lparr>browser = Some 5, page = Some 2, trace = []\<rparr> @
                [PageCmd 2 (Goto APP_URL NETWORKIDLE2)]) 2)
             (js ''notebooklm.google.com'')"
    by (simp add: all_ok_def)
  have c: "\<not> js_includes
             (url_res all_ok (trace \<lparr>browser = Some 5, page = Some 2, trace = []\<rparr> @
                [PageCmd 2 (Goto APP_URL NETWORKIDLE2)]) 2)
             (js ''accounts.google.com'')"
    by (simp add: all_ok_def)
  from loginToGoogle_skip [OF a b c] a b c show ?thesis
    by simp
qed


lemma await_ret_left: "await (ret x) k = k x"
  by (simp add: await_def fun_eq_iff)

lemma await_assoc: "await (await m f) g = await m (\<lambda>x. await (f x) g)"
  by (auto simp: await_def fun_eq_iff split: prod.splits sum.splits)

lemma run_cmds_trace:
  "run_cmds w (Some h) cs s = (r, s') \<Longrightarrow>
   \<exists>k. k \<le> length cs \<and> (cs = [] \<or> 1 \<le> k) \<and>
       trace s' = trace s @ map (PageCmd h) (take k cs) \<and>
       (r = Inr () \<longrightarrow> k = length cs) \<and> browser s' = browser s \<and> page s' = page s"
proof (induction cs arbitrary: s)
  case Nil
  then show ?case by auto
next
  case (Cons c cs)
  show ?case
  proof (cases "cmd_res w (trace s) h c")
    case (Some e)
    with Cons.prems have "r = Inl e" "s' = s\<lparr>trace := trace s @ [PageCmd h c]\<rparr>"
      by (auto simp: await_def page_cmd_Some)
    then show ?thesis
      by (intro exI [of _ 1]) simp
  next
    case None
    with Cons.prems have "run_cmds w (Some h) cs (s\<lparr>trace := trace s @ [PageCmd h c]\<rparr>) = (r, s')"
      by (simp add: await_def page_cmd_Some)
    from Cons.IH [OF this] obtain k where k: "k \<le> length cs"
      "trace s' = (trace s @ [PageCmd h c]) @ map (PageCmd h) (take k cs)"
      "r = Inr () \<longrightarrow> k = length cs" "browser s' = browser s" "page s' = page s"
      by auto
    then show ?thesis
      by (intro exI [of _ "Suc k"]) simp
  qed
qed

lemma run_cmds_all_succeed:
  assumes "\<forall>i<length cs.
             cmd_res w (trace s @ map (PageCmd h) (take i cs)) h (cs ! i) = None"
  shows "run_cmds w (Some h) cs s = (Inr (), s\<lparr>trace := trace s @ map (PageCmd h) cs\<rparr>)"
  using assms
proof (induction cs arbitrary: s)
  case Nil
  then show ?case by simp
next
  case (Cons c cs)
  from Cons.prems [rule_format, of 0] have head: "cmd_res w (trace s) h c = None"
    by simp
  let ?s = "s\<lparr>trace := trace s @ [PageCmd h c]\<rparr>"
  have "\<forall>i<length cs. cmd_res w (trace ?s @ map (PageCmd h) (take i cs)) h (cs ! i) = None"
  proof (intro allI impI)
    fix i
    assume "i < length cs"
    with Cons.prems [rule_format, of "Suc i"]
    show "cmd_res w (trace ?s @ map (PageCmd h) (take i cs)) h (cs ! i) = None"
      by simp
  qed
  from Cons.IH [OF this] head show ?case
    by (simp add: await_def page_cmd_Some)
qed

lemma run_cmds_first_failure:
  assumes "j < length cs"
    and "\<forall>i<j. cmd_res w (trace s @ map (PageCmd h) (take i cs)) h (cs ! i) = None"
    and "cmd_res w (trace s @ map (PageCmd h) (take j cs)) h (cs ! j) = Some e"
  shows "run_cmds w (Some h) cs s =
           (Inl e, s\<lparr>trace := trace s @ map (PageCmd h) (take (Suc j) cs)\<rparr>)"
  using assms
proof (induction cs arbitrary: s j)
  case Nil
  then show ?case by simp
next
  case (Cons c cs)
  show ?case
  proof (cases j)
    case 0
    with Cons.prems(3) show ?thesis
      by (simp add: await_def page_cmd_Some)
  next
    case (Suc j')
    from Cons.prems(2) [rule_format, of 0] Suc have head: "cmd_res w (trace s) h c = None"
      by simp
    let ?s = "s\<lparr>trace := trace s @ [PageCmd h c]\<rparr>"
    have len: "j' < length cs"
      using Cons.prems(1) Suc by simp
    have before: "\<forall>i<j'. cmd_res w (trace ?s @ map (PageCmd h) (take i cs)) h (cs ! i) = None"
    proof (intro allI impI)
      fix i
      assume "i < j'"
      with Cons.prems(2) [rule_format, of "Suc i"] Suc
      show "cmd_res w (trace ?s @ map (PageCmd h) (take i cs)) h (cs ! i) = None"
        by simp
    qed
    have at: "cmd_res w (trace ?s @ map (PageCmd h) (take j' cs)) h (cs ! j') = Some e"
      using Cons.prems(3) Suc by simp
    from Cons.IH [OF len before at] head Suc show ?thesis
      by (simp add: await_def page_cmd_Some)
  qed
qed

lemma loginToGoogle_login_path:
  assumes "cmd_res w (trace s) h (Goto APP_URL NETWORKIDLE2) = None"
    and "\<not> (js_includes (url_res w (trace s @ [PageCmd h (Goto APP_URL NETWORKIDLE2)]) h)
               (js ''notebooklm.google.com'') \<and>
            \<not> js_includes (url_res w (trace s @ [PageCmd h (Goto APP_URL NETWORKIDLE2)]) h)
               (js ''accounts.google.com''))"
  shows "loginToGoogle w (Some h) s =
           run_cmds w (Some h)
             [WaitForSelector EMAIL_INPUT 10000, TypeInto EMAIL_INPUT (GOOGLE_EMAIL w),
              Click (js ''#identifierNext''), WaitForSelector PASSWORD_INPUT 10000,
              TypeInto PASSWORD_INPUT (GOOGLE_PASSWORD w), Click (js ''#passwordNext''),
              WaitForNavigation NETWORKIDLE2]
             (s\<lparr>trace := trace s @ [PageCmd h (Goto APP_URL NETWORKIDLE2)]\<rparr>)"
  using assms
  by (auto simp: loginToGoogle_def await_def page_cmd_Some page_url_Some
      split: option.splits prod.splits sum.splits)

text \<open>
  Claim C5. On the login path (the opening navigation succeeded and the URL read after
  it fails the already-logged-in test), \<^verbatim>\<open>loginToGoogle\<close> goes through these seven
  calls in this order: wait for the email field, type the configured account into it,
  click the identifier-next button, wait for the password field, type the configured
  secret into it, click the password-next button, wait for the navigation. Each call
  that succeeds is followed by the next one: when all seven succeed, the function returns
  normally having made exactly these seven calls after the navigation; when the call at
  position \<open>j\<close> is the first to throw, the function throws that exception having made
  exactly the calls up to and including it. In every case the calls made are an initial
  part, at least the first, of the seven, and the whole list on a normal return.
\<close>

theorem loginToGoogle_sequence:
  assumes "cmd_res w (trace s) h (Goto APP_URL NETWORKIDLE2) = None"
    and "\<not> (js_includes (url_res w (trace s @ [PageCmd h (Goto APP_URL NETWORKIDLE2)]) h)
               (js ''notebooklm.google.com'') \<and>
            \<not> js_includes (url_res w (trace s @ [PageCmd h (Goto APP_URL NETWORKIDLE2)]) h)
               (js ''accounts.google.com''))"
    and "steps =
           [WaitForSelector EMAIL_INPUT 10000, TypeInto EMAIL_INPUT (GOOGLE_EMAIL w),
            Click (js ''#identifierNext''), WaitForSelector PASSWORD_INPUT 10000,
            TypeInto PASSWORD_INPUT (GOOGLE_PASSWORD w), Click (js ''#passwordNext''),
            WaitForNavigation NETWORKIDLE2]"
    and "loginToGoogle w (Some h) s = (r, s')"
  shows "(\<exists>k. 1 \<le> k \<and> k \<le> 7 \<and>
            trace s' = trace s @ map (PageCmd h) (Goto APP_URL NETWORKIDLE2 # take k steps) \<and>
            (r = Inr () \<longrightarrow> k = 7)) \<and>
         ((\<forall>i<length steps.
             cmd_res w (trace s @ map (PageCmd h) (Goto APP_URL NETWORKIDLE2 # take i steps)) h
               (steps ! i) = None) \<longrightarrow>
          r = Inr () \<and>
          trace s' = trace s @ map (PageCmd h) (Goto APP_URL NETWORKIDLE2 # steps)) \<and>
         (\<forall>j e. j < length steps \<and>
            (\<forall>i<j. cmd_res w
                      (trace s @ map (PageCmd h) (Goto APP_URL NETWORKIDLE2 # take i steps)) h
                      (steps ! i) = None) \<and>
            cmd_res w (trace s @ map (PageCmd h) (Goto APP_URL NETWORKIDLE2 # take j steps)) h
              (steps ! j) = Some e \<longrightarrow>
            r = Inl e \<and>
            trace s' =
              trace s @ map (PageCmd h) (Goto APP_URL NETWORKIDLE2 # take (Suc j) steps))"
proof -
  let ?s0 = "s\<lparr>trace := trace s @ [PageCmd h (Goto APP_URL NETWORKIDLE2)]\<rparr>"
  from assms have run: "run_cmds w (Some h) steps ?s0 = (r, s')"
    by (simp add: loginToGoogle_login_path)
  from run_cmds_trace [OF run] assms(3)
  have part: "\<exists>k. 1 \<le> k \<and> k \<le> 7 \<and>
      trace s' = trace s @ map (PageCmd h) (Goto APP_URL NETWORKIDLE2 # take k steps) \<and>
      (r = Inr () \<longrightarrow> k = 7)"
    by auto
  have whole: "r = Inr () \<and>
      trace s' = trace s @ map (PageCmd h) (Goto APP_URL NETWORKIDLE2 # steps)"
    if ok: "\<forall>i<length steps.
      cmd_res w (trace s @ map (PageCmd h) (Goto APP_URL NETWORKIDLE2 # take i steps)) h
        (steps ! i) = None"
  proof -
    from ok have "\<forall>i<length steps.
        cmd_res w (trace ?s0 @ map (PageCmd h) (take i steps)) h (steps ! i) = None"
      by simp
    from run_cmds_all_succeed [OF this] run show ?thesis
      by auto
  qed
  have stopped: "r = Inl e \<and>
      trace s' = trace s @ map (PageCmd h) (Goto APP_URL NETWORKIDLE2 # take (Suc j) steps)"
    if bad: "j < length steps \<and>
      (\<forall>i<j. cmd_res w
                (trace s @ map (PageCmd h) (Goto APP_URL NETWORKIDLE2 # take i steps)) h
                (steps ! i) = None) \<and>
      cmd_res w (trace s @ map (PageCmd h) (Goto APP_URL NETWORKIDLE2 # take j steps)) h
        (steps ! j) = Some e" for j e
  proof -
    from bad have len: "j < length steps"
      and before: "\<forall>i<j. cmd_res w (trace ?s0 @ map (PageCmd h) (take i steps)) h (steps ! i) = None"
      and at: "cmd_res w (trace ?s0 @ map (PageCmd h) (take j steps)) h (steps ! j) = Some e"
      by simp_all
    from run_cmds_first_failure [OF len before at] run show ?thesis
      by auto
  qed
  from part whole stopped show ?thesis
    by blast
qed

theorem loginToGoogle_sequence_witness:
  "cmd_res login_wall [] 2 (Goto APP_URL NETWORKIDLE2) = None \<and>
   \<not> (js_includes (url_res login_wall [PageCmd 2 (Goto APP_URL NETWORKIDLE2)] 2)
          (js ''notebooklm.google.com'') \<and>
       \<not> js_includes (url_res login_wall [PageCmd 2 (Goto APP_URL NETWORKIDLE2)] 2)
          (js ''accounts.google.com'')) \<and>
   cmd_res login_wall
     (map (PageCmd 2)
        [Goto APP_URL NETWORKIDLE2]) 2
     (WaitForSelector EMAIL_INPUT 10000) = None \<and>
   cmd_res login_wall
     (map (PageCmd 2)
        [Goto APP_URL NETWORKIDLE2, WaitForSelector EMAIL_INPUT 10000]) 2
     (TypeInto EMAIL_INPUT (js ''user@example.com'')) = None \<and>
   cmd_res login_wall
     (map (PageCmd 2)
        [Goto APP_URL NETWORKIDLE2, WaitForSelector EMAIL_INPUT 10000,
         TypeInto EMAIL_INPUT (js ''user@example.com'')]) 2
     (Click (js ''#identifierNext'')) = None \<and>
   cmd_res login_wall
     (map (PageCmd 2)
        [Goto APP_URL NETWORKIDLE2, WaitForSelector EMAIL_INPUT 10000,
         TypeInto EMAIL_INPUT (js ''user@example.com''),
         Click (js ''#identifierNext'')]) 2
     (WaitForSelector PASSWORD_INPUT 10000) = None \<and>
   cmd_res login_wall
     (map (PageCmd 2)
        [Goto APP_URL NETWORKIDLE2, WaitForSelector EMAIL_INPUT 10000,
         TypeInto EMAIL_INPUT (js ''user@example.com''),
         Click (js ''#identifierNext''), WaitForSelector PASSWORD_INPUT 10000]) 2
     (TypeInto PASSWORD_INPUT (js ''hunter2'')) = None \<and>
   cmd_res login_wall
     (map (PageCmd 2)
        [Goto APP_URL NETWORKIDLE2, WaitForSelector EMAIL_INPUT 10000,
         TypeInto EMAIL_INPUT (js ''user@example.com''),
         Click (js ''#identifierNext''),
         WaitForSelector PASSWORD_INPUT 10000,
         TypeInto PASSWORD_INPUT (js ''hunter2'')]) 2
     (Click (js ''#passwordNext'')) = None \<and>
   cmd_res login_wall
     (map (PageCmd 2)
        [Goto APP_URL NETWORKIDLE2, WaitForSelector EMAIL_INPUT 10000,
         TypeInto EMAIL_INPUT (js ''user@example.com''),
         Click (js ''#identifierNext''),
         WaitForSelector PASSWORD_INPUT 10000,
         TypeInto PASSWORD_INPUT (js ''hunter2''),
         Click (js ''#passwordNext'')]) 2
     (WaitForNavigation NETWORKIDLE2) = None \<and>
   fst (loginToGoogle login_wall (Some 2) \<lparr>browser = Some 5, page = Some 2, trace = []\<rparr>) = Inr () \<and>
   trace (snd (loginToGoogle login_wall (Some 2) \<lparr>browser = Some 5, page = Some 2, trace = []\<rparr>)) =
     map (PageCmd 2)
       [Goto APP_URL NETWORKIDLE2, WaitForSelector EMAIL_INPUT 10000,
        TypeInto EMAIL_INPUT (js ''user@example.com''),
        Click (js ''#identifierNext''), WaitForSelector PASSWORD_INPUT 10000,
        TypeInto PASSWORD_INPUT (js ''hunter2''),
        Click (js ''#passwordNext''), WaitForNavigation NETWORKIDLE2] \<and>
   cmd_res no_password_field [] 2 (Goto APP_URL NETWORKIDLE2) = None \<and>
   \<not> (js_includes (url_res no_password_field [PageCmd 2 (Goto APP_URL NETWORKIDLE2)] 2)
          (js ''notebooklm.google.com'') \<and>
       \<not> js_includes (url_res no_password_field [PageCmd 2 (Goto APP_URL NETWORKIDLE2)] 2)
          (js ''accounts.google.com'')) \<and>
   cmd_res no_password_field
     (map (PageCmd 2)
        [Goto APP_URL NETWORKIDLE2]) 2
     (WaitForSelector EMAIL_INPUT 10000) = None \<and>
   cmd_res no_password_field
     (map (PageCmd 2)
        [Goto APP_URL NETWORKIDLE2, WaitForSelector EMAIL_INPUT 10000]) 2
     (TypeInto EMAIL_INPUT (js ''user@example.com'')) = None \<and>
   cmd_res no_password_field
     (map (PageCmd 2)
        [Goto APP_URL NETWORKIDLE2, WaitForSelector EMAIL_INPUT 10000,
         TypeInto EMAIL_INPUT (js ''user@example.com'')]) 2
     (Click (js ''#identifierNext'')) = None \<and>
   cmd_res no_password_field
     (map (PageCmd 2)
        [Goto APP_URL NETWORKIDLE2, WaitForSelector EMAIL_INPUT 10000,
         TypeInto EMAIL_INPUT (js ''user@example.com''),
         Click (js ''#identifierNext'')]) 2
     (WaitForSelector PASSWORD_INPUT 10000) = Some no_field \<and>
   fst (loginToGoogle no_password_field (Some 2) \<lparr>browser = Some 5, page = Some 2, trace = []\<rparr>) = Inl no_field \<and>
   trace (snd (loginToGoogle no_password_field (Some 2) \<lparr>browser = Some 5, page = Some 2, trace = []\<rparr>)) =
     map (PageCmd 2)
       [Goto APP_URL NETWORKIDLE2, WaitForSelector EMAIL_INPUT 10000,
        TypeInto EMAIL_INPUT (js ''user@example.com''),
        Click (js ''#identifierNext''), WaitForSelector PASSWORD_INPUT 10000]"
proof -
  let ?s = "\<lparr>browser = Some 5, page = Some 2, trace = []\<rparr>"
  let ?steps = "\<lambda>w. [WaitForSelector EMAIL_INPUT 10000, TypeInto EMAIL_INPUT (GOOGLE_EMAIL w),
      Click (js ''#identifierNext''), WaitForSelector PASSWORD_INPUT 10000,
      TypeInto PASSWORD_INPUT (GOOGLE_PASSWORD w), Click (js ''#passwordNext''),
      WaitForNavigation NETWORKIDLE2]"
  have env: "GOOGLE_EMAIL login_wall = js ''user@example.com''"
    "GOOGLE_PASSWORD login_wall = js ''hunter2''"
    "GOOGLE_EMAIL no_password_field = js ''user@example.com''"
    "GOOGLE_PASSWORD no_password_field = js ''hunter2''"
    by (simp_all add: GOOGLE_EMAIL_def GOOGLE_PASSWORD_def env_or_empty_def
        no_password_field_def login_wall_def all_ok_def)
  have ok: "cmd_res login_wall l 2 c = None" for l c
    by (simp add: login_wall_def all_ok_def)
  have differ: "WaitForSelector EMAIL_INPUT 10000 \<noteq> WaitForSelector PASSWORD_INPUT 10000"
    by (simp add: EMAIL_INPUT_def PASSWORD_INPUT_def)
  have field: "cmd_res no_password_field l 2 c =
      (if c = WaitForSelector PASSWORD_INPUT 10000 then Some no_field else None)" for l c
    by (simp add: no_password_field_def)
  have url: "\<not> (js_includes (url_res login_wall l 2) (js ''notebooklm.google.com'') \<and>
                \<not> js_includes (url_res login_wall l 2) (js ''accounts.google.com''))"
    "\<not> (js_includes (url_res no_password_field l 2) (js ''notebooklm.google.com'') \<and>
        \<not> js_includes (url_res no_password_field l 2) (js ''accounts.google.com''))" for l
    by (simp_all add: no_password_field_def login_wall_def all_ok_def)
  have page_url: "url_res login_wall l 2 = js ''https://accounts.google.com/signin''"
    "url_res no_password_field l 2 = js ''https://accounts.google.com/signin''" for l
    by (simp_all add: no_password_field_def login_wall_def all_ok_def)
  have a: "cmd_res login_wall (trace ?s) 2 (Goto APP_URL NETWORKIDLE2) = None"
    by (rule ok)
  have a': "cmd_res no_password_field (trace ?s) 2 (Goto APP_URL NETWORKIDLE2) = None"
    by (simp add: field)
  have run: "loginToGoogle login_wall (Some 2) ?s =
      (fst (loginToGoogle login_wall (Some 2) ?s), snd (loginToGoogle login_wall (Some 2) ?s))"
    by simp
  have run': "loginToGoogle no_password_field (Some 2) ?s =
      (fst (loginToGoogle no_password_field (Some 2) ?s),
       snd (loginToGoogle no_password_field (Some 2) ?s))"
    by simp
  have all: "\<forall>i<length (?steps login_wall).
      cmd_res login_wall
        (trace ?s @ map (PageCmd 2) (Goto APP_URL NETWORKIDLE2 # take i (?steps login_wall))) 2
        (?steps login_wall ! i) = None"
    by (simp add: ok)
  have fourth: "(3::nat) < length (?steps no_password_field) \<and>
      (\<forall>i<3. cmd_res no_password_field
                (trace ?s @ map (PageCmd 2)
                   (Goto APP_URL NETWORKIDLE2 # take i (?steps no_password_field))) 2
                (?steps no_password_field ! i) = None) \<and>
      cmd_res no_password_field
        (trace ?s @ map (PageCmd 2)
           (Goto APP_URL NETWORKIDLE2 # take 3 (?steps no_password_field))) 2
        (?steps no_password_field ! 3) = Some no_field"
    using differ
    by (simp add: field less_Suc_eq numeral_3_eq_3 nth_Cons')
  from loginToGoogle_sequence [OF a url(1) refl run] all
  have good: "fst (loginToGoogle login_wall (Some 2) ?s) = Inr () \<and>
      trace (snd (loginToGoogle login_wall (Some 2) ?s)) =
        trace ?s @ map (PageCmd 2) (Goto APP_URL NETWORKIDLE2 # ?steps login_wall)"
    by blast
  from loginToGoogle_sequence [OF a' url(2) refl run'] fourth
  have bad: "fst (loginToGoogle no_password_field (Some 2) ?s) = Inl no_field \<and>
      trace (snd (loginToGoogle no_password_field (Some 2) ?s)) =
        trace ?s @ map (PageCmd 2)
          (Goto APP_URL NETWORKIDLE2 # take (Suc 3) (?steps no_password_field))"
    by blast
  from good bad differ show ?thesis
    by (simp add: env ok field page_url numeral_3_eq_3)
qed

subsection \<open>The protocol adapter\<close>

lemma tool_names_distinct:
  "js ''list_notebooks'' \<noteq> js ''create_notebook''"
  "js ''open_notebooklm'' \<noteq> js ''create_notebook''"
  "js ''open_notebooklm'' \<noteq> js ''list_notebooks''"
  by simp_all

text \<open>
  Claim C6. For a request whose operation name is none of \<^verbatim>\<open>create_notebook\<close>,
  \<^verbatim>\<open>list_notebooks\<close> and \<^verbatim>\<open>open_notebooklm\<close>, the call handler throws its error,
  makes no call to the library and leaves the module state as it is; it returns no response.
\<close>

theorem callTool_unknown:
  assumes "params_name request \<notin>
             {js ''create_notebook'', js ''list_notebooks'', js ''open_notebooklm''}"
  shows "callTool w request s = (Inl unsupported_tool, s) \<and>
         (\<forall>resp s'. callTool w request s \<noteq> (Inr resp, s'))"
  using assms by (simp add: callTool_def)

theorem callTool_unknown_witness:
  "js ''delete_notebook'' \<notin>
     {js ''create_notebook'', js ''list_notebooks'', js ''open_notebooklm''} \<and>
   callTool all_ok \<lparr>params_name = js ''delete_notebook'', params_arguments = None\<rparr> initial =
     (Inl unsupported_tool, initial)"
proof -
  have a: "params_name \<lparr>params_name = js ''delete_notebook'', params_arguments = None\<rparr> \<notin>
      {js ''create_notebook'', js ''list_notebooks'', js ''open_notebooklm''}"
    by simp
  from callTool_unknown [OF a, of all_ok initial] a show ?thesis
    by simp
qed

text \<open>
  Claim C7. For the operation \<^verbatim>\<open>open_notebooklm\<close>: an exception thrown by
  \<^verbatim>\<open>initBrowser\<close> is thrown by the handler; so is one thrown by \<^verbatim>\<open>loginToGoogle\<close>
  on the page obtained; and when both return, the handler returns the one response whose
  single text item is the fixed confirmation, whatever the simulation and the state.
\<close>

theorem callTool_open:
  assumes "params_name request = js ''open_notebooklm''"
  shows "case initBrowser w s of
           (Inl e, s1) \<Rightarrow> callTool w request s = (Inl e, s1)
         | (Inr p, s1) \<Rightarrow>
             (case loginToGoogle w p s1 of
                (Inl e, s2) \<Rightarrow> callTool w request s = (Inl e, s2)
              | (Inr u, s2) \<Rightarrow>
                  callTool w request s =
                    (Inr \<lparr>content = [\<lparr>item_type = js ''text'', item_text = opened_message\<rparr>]\<rparr>, s2))"
  using assms
  by (simp add: callTool_def await_def text_response_def tool_names_distinct
      split: prod.splits sum.splits)


theorem callTool_open_witness:
  "params_name \<lparr>params_name = js ''open_notebooklm'', params_arguments = None\<rparr> =
     js ''open_notebooklm'' \<and>
   fst (callTool all_ok \<lparr>params_name = js ''open_notebooklm'', params_arguments = None\<rparr>
          initial) =
     Inr \<lparr>content = [\<lparr>item_type = js ''text'', item_text = opened_message\<rparr>]\<rparr> \<and>
   fst (callTool no_browser \<lparr>params_name = js ''open_notebooklm'', params_arguments = None\<rparr>
          initial) =
     Inl launch_failed \<and>
   fst (callTool offline \<lparr>params_name = js ''open_notebooklm'', params_arguments = None\<rparr>
          initial) =
     Inl net_down"
proof -
  let ?r = "\<lparr>params_name = js ''open_notebooklm'', params_arguments = None\<rparr>"
  have a: "params_name ?r = js ''open_notebooklm''"
    by simp
  have ok: "initBrowser all_ok initial =
      (Inr (Some 2), \<lparr>browser = Some 5, page = Some 2, trace = [LAUNCH, NewPage 5]\<rparr>)"
    by (simp add: initBrowser_first initial_def all_ok_def)
  have login: "loginToGoogle all_ok (Some 2)
        \<lparr>browser = Some 5, page = Some 2, trace = [LAUNCH, NewPage 5]\<rparr> =
      (Inr (), \<lparr>browser = Some 5, page = Some 2,
                trace = [LAUNCH, NewPage 5, PageCmd 2 (Goto APP_URL NETWORKIDLE2)]\<rparr>)"
    by (simp add: loginToGoogle_def await_def page_cmd_Some page_url_Some all_ok_def)
  have bad: "initBrowser no_browser initial =
      (Inl launch_failed, \<lparr>browser = None, page = None, trace = [LAUNCH]\<rparr>)"
    by (simp add: initBrowser_first initial_def no_browser_def all_ok_def)
  have ok': "initBrowser offline initial =
      (Inr (Some 2), \<lparr>browser = Some 5, page = Some 2, trace = [LAUNCH, NewPage 5]\<rparr>)"
    by (simp add: initBrowser_first initial_def offline_def all_ok_def)
  have login': "loginToGoogle offline (Some 2)
        \<lparr>browser = Some 5, page = Some 2, trace = [LAUNCH, NewPage 5]\<rparr> =
      (Inl net_down, \<lparr>browser = Some 5, page = Some 2,
                        trace = [LAUNCH, NewPage 5, PageCmd 2 (Goto APP_URL NETWORKIDLE2)]\<rparr>)"
    by (simp add: loginToGoogle_def await_def page_cmd_Some offline_def all_ok_def)
  from callTool_open [OF a, of all_ok initial] callTool_open [OF a, of no_browser initial]
    callTool_open [OF a, of offline initial]
  show ?thesis
    by (simp add: ok login bad ok' login')
qed

text \<open>
  Claim C8. The catalog lists three tools, named \<^verbatim>\<open>create_notebook\<close>,
  \<^verbatim>\<open>list_notebooks\<close> and \<^verbatim>\<open>open_notebooklm\<close> in this order. The input schema of
  the first declares the single field \<^verbatim>\<open>title\<close>, of type \<^verbatim>\<open>string\<close>, and requires it;
  the schemas of the other two declare no field and no required field.
\<close>

theorem listTools_catalog:
  "map name listTools =
     [js ''create_notebook'', js ''list_notebooks'', js ''open_notebooklm''] \<and>
   map (\<lambda>t. map (\<lambda>(k, v). (k, property_type v)) (properties (inputSchema t))) listTools =
     [[(js ''title'', js ''string'')], [], []] \<and>
   map (\<lambda>t. required (inputSchema t)) listTools = [Some [js ''title''], None, None]"
  by (simp add: listTools_def)

subsection \<open>The handlers behind their first three steps\<close>

lemma reach_app_page:
  assumes "reach_app w s = (Inr p, s1)"
  shows "\<exists>h. p = Some h"
proof (cases p)
  case None
  with assms show ?thesis
    by (auto simp: reach_app_def await_def loginToGoogle_def page_cmd_None
        split: prod.splits sum.splits)
next
  case (Some h)
  then show ?thesis by simp
qed

lemma listNotebooks_reach:
  "listNotebooks w s =
     (case reach_app w s of
        (Inl e, s1) \<Rightarrow> (Inl e, s1)
      | (Inr p, s1) \<Rightarrow> try_catch (listNotebooks_body w p) (\<lambda>e. ret (list_failed_message e)) s1)"
  by (simp add: listNotebooks_def reach_app_def await_def split: prod.splits sum.splits)

lemma createNotebook_reach:
  "createNotebook w title s =
     (case reach_app w s of
        (Inl e, s1) \<Rightarrow> (Inl e, s1)
      | (Inr p, s1) \<Rightarrow>
          try_catch (createNotebook_body w title p) (\<lambda>e. ret (create_failed_message e)) s1)"
  by (simp add: createNotebook_def reach_app_def await_def split: prod.splits sum.splits)

lemma reach_app_examples:
  "reach_app all_ok initial = (Inr (Some 2), arrived)"
  "reach_app no_titles initial = (Inr (Some 2), arrived)"
  "reach_app no_dialog initial = (Inr (Some 2), arrived)"
  by (simp_all add: reach_app_def await_def initBrowser_first initial_def loginToGoogle_def
      page_cmd_Some page_url_Some all_ok_def no_titles_def no_dialog_def arrived_def)

subsection \<open>listNotebooks\<close>

lemma show_nat_123:
  "show_nat (Suc 0) = js ''1''" "show_nat (Suc (Suc 0)) = js ''2''"
  "show_nat (Suc (Suc (Suc 0))) = js ''3''"
  by (simp_all add: show_nat.simps digit_def)

lemma listNotebooks_body_result:
  assumes "evalAll_res w (trace s1) h NOTEBOOK_TITLES = Inr els"
  shows "fst (listNotebooks_body w (Some h) s1) =
           Inr (if notebook_titles els = [] then no_notebooks_message
                else list_header @ join [0x000A] (numbered (notebook_titles els)))"
  using assms by (simp add: listNotebooks_body_def await_def page_evalAll_def Let_def)

text \<open>
  Claim C3. Let \<^verbatim>\<open>listNotebooks\<close> have obtained the page, logged in and navigated, and
  let the query return the text contents \<open>els\<close>. When trimming them and dropping the
  falsy ones leaves nothing, the function returns the empty-state message. When it leaves
  the three strings A, B, C, the function returns the list header followed by exactly
  \<^verbatim>\<open>1. A\<close>, \<^verbatim>\<open>2. B\<close>, \<^verbatim>\<open>3. C\<close> separated by line feeds.
\<close>

theorem listNotebooks_result:
  assumes "reach_app w s = (Inr (Some h), s1)"
    and "evalAll_res w (trace s1) h NOTEBOOK_TITLES = Inr els"
  shows "(notebook_titles els = [] \<longrightarrow>
            fst (listNotebooks w s) = Inr no_notebooks_message) \<and>
         (notebook_titles els = [JStr (js ''A''), JStr (js ''B''), JStr (js ''C'')] \<longrightarrow>
            fst (listNotebooks w s) =
              Inr (list_header @ js ''1. A'' @ [0x000A] @ js ''2. B'' @ [0x000A] @ js ''3. C''))"
proof -
  from assms(1) have "listNotebooks w s =
      try_catch (listNotebooks_body w (Some h)) (\<lambda>e. ret (list_failed_message e)) s1"
    by (simp add: listNotebooks_reach)
  moreover obtain s2 where "listNotebooks_body w (Some h) s1 =
      (Inr (if notebook_titles els = [] then no_notebooks_message
            else list_header @ join [0x000A] (numbered (notebook_titles els))), s2)"
    using listNotebooks_body_result [OF assms(2)] by (cases "listNotebooks_body w (Some h) s1") auto
  ultimately have "fst (listNotebooks w s) =
      Inr (if notebook_titles els = [] then no_notebooks_message
           else list_header @ join [0x000A] (numbered (notebook_titles els)))"
    by (simp add: try_catch_def)
  then show ?thesis
    by (simp add: numbered_def show_nat_123)
qed


theorem listNotebooks_result_witness:
  "reach_app all_ok initial = (Inr (Some 2), arrived) \<and>
   evalAll_res all_ok (trace arrived) 2 NOTEBOOK_TITLES =
     Inr [Some (js '' A''), None, Some (js ''B ''), Some (js ''  ''), Some (js ''C'')] \<and>
   notebook_titles [Some (js '' A''), None, Some (js ''B ''), Some (js ''  ''), Some (js ''C'')] =
     [JStr (js ''A''), JStr (js ''B''), JStr (js ''C'')] \<and>
   fst (listNotebooks all_ok initial) =
     Inr (list_header @ js ''1. A'' @ [0x000A] @ js ''2. B'' @ [0x000A] @ js ''3. C'') \<and>
   reach_app no_titles initial = (Inr (Some 2), arrived) \<and>
   evalAll_res no_titles (trace arrived) 2 NOTEBOOK_TITLES = Inr [None, Some (js '' '')] \<and>
   notebook_titles [None, Some (js '' '')] = [] \<and>
   fst (listNotebooks no_titles initial) = Inr no_notebooks_message"
proof -
  have a: "evalAll_res all_ok (trace arrived) 2 NOTEBOOK_TITLES =
      Inr [Some (js '' A''), None, Some (js ''B ''), Some (js ''  ''), Some (js ''C'')]"
    by (simp add: all_ok_def)
  have b: "notebook_titles
        [Some (js '' A''), None, Some (js ''B ''), Some (js ''  ''), Some (js ''C'')] =
      [JStr (js ''A''), JStr (js ''B''), JStr (js ''C'')]"
    by (simp add: notebook_titles_def trimmed_text_def trim_def js_space_def)
  have c: "evalAll_res no_titles (trace arrived) 2 NOTEBOOK_TITLES = Inr [None, Some (js '' '')]"
    by (simp add: no_titles_def)
  have d: "notebook_titles [None, Some (js '' '')] = []"
    by (simp add: notebook_titles_def trimmed_text_def trim_def js_space_def)
  from listNotebooks_result [OF reach_app_examples(1) a]
    listNotebooks_result [OF reach_app_examples(2) c] a b c d reach_app_examples
  show ?thesis
    by simp
qed


subsection \<open>createNotebook\<close>

lemma js_includes_prefix: "js_includes (t @ b) t"
proof -
  have "starts_with (t @ b) t"
    by (induction t) auto
  then show ?thesis
    by (cases "t @ b") (auto simp: neq_Nil_conv)
qed

lemma js_includes_append: "js_includes s t \<Longrightarrow> js_includes (a @ s) t"
  by (induction a) auto

lemma js_includes_middle: "js_includes (a @ t @ b) t"
  by (simp add: js_includes_append js_includes_prefix)

lemma created_message_title: "js_includes (created_message title) (to_text title)"
proof -
  have "created_message title =
      ([0xB178, 0xD2B8, 0xBD81] @ js '' '' @ [0x0022]) @ to_text title @
      ([0x0022] @ js '' '' @ [0xC0DD, 0xC131] @ js '' '' @ [0xC644, 0xB8CC] @ js ''!'')"
    by (simp add: created_message_def)
  then show ?thesis
    by (simp only: js_includes_middle)
qed

lemma create_failed_message_text: "js_includes (create_failed_message e) (exn_text e)"
proof -
  have "create_failed_message e =
      ([0xB178, 0xD2B8, 0xBD81] @ js '' '' @ [0xC0DD, 0xC131] @ js '' '' @ [0xC911] @ js '' '' @
       [0xC624, 0xB958] @ js '' '' @ [0xBC1C, 0xC0DD] @ js '': '') @ exn_text e @
      (js ''. NotebookLM '' @ [0xD398, 0xC774, 0xC9C0, 0xB97C] @ js '' '' @ [0xC9C1, 0xC811] @
       js '' '' @ [0xD655, 0xC778, 0xD574, 0xC8FC, 0xC138, 0xC694] @ js ''.'')"
    by (simp add: create_failed_message_def)
  then show ?thesis
    by (simp only: js_includes_middle)
qed

lemma createNotebook_body_value:
  "createNotebook_body w title p s1 = (Inr m, s2) \<Longrightarrow> m = created_message title"
  by (auto simp: createNotebook_body_def await_def split: prod.splits sum.splits)

text \<open>
  Claim C1, as the code has it. An exception thrown while obtaining the page, logging in
  or navigating to the application is thrown by \<^verbatim>\<open>createNotebook\<close>. Once these three
  steps have returned, \<^verbatim>\<open>createNotebook\<close> returns a string and throws nothing: when a
  step of the \<^verbatim>\<open>try\<close> block throws, the string is the failure message, which contains
  the text of the exception; when none does, it is the success message, which contains
  the text of the title.
\<close>

theorem createNotebook_catches:
  "case reach_app w s of
     (Inl e, s1) \<Rightarrow> createNotebook w title s = (Inl e, s1)
   | (Inr p, s1) \<Rightarrow>
       (case createNotebook_body w title p s1 of
          (Inl e, s2) \<Rightarrow>
            createNotebook w title s = (Inr (create_failed_message e), s2) \<and>
            js_includes (create_failed_message e) (exn_text e)
        | (Inr m, s2) \<Rightarrow>
            createNotebook w title s = (Inr (created_message title), s2) \<and>
            js_includes (created_message title) (to_text title))"
  by (auto simp: createNotebook_reach try_catch_def created_message_title
      create_failed_message_text split: prod.splits sum.splits
      dest: createNotebook_body_value)

text \<open>
  Claim C1 as stated fails: when the browser cannot be launched, \<^verbatim>\<open>createNotebook\<close>
  throws the launch error instead of returning a string.
\<close>

theorem createNotebook_throws:
  "fst (createNotebook no_browser (JStr (js ''My Notes'')) initial) = Inl launch_failed"
  by (simp add: createNotebook_def await_def initBrowser_first initial_def no_browser_def
      all_ok_def)


lemma reach_app_no_browser: "fst (reach_app no_browser initial) = Inl launch_failed"
  by (simp add: reach_app_def await_def initBrowser_first initial_def no_browser_def all_ok_def)

lemma createNotebook_body_examples:
  "fst (createNotebook_body all_ok (JStr (js ''My Notes'')) (Some 2) arrived) =
     Inr (created_message (JStr (js ''My Notes'')))"
  "fst (createNotebook_body no_dialog (JStr (js ''My Notes'')) (Some 2) arrived) = Inl timed_out"
  by (simp_all add: createNotebook_body_def await_def page_cmd_Some page_queryAll_def
      elem_textContent_def record_call_def button_matches_def all_ok_def no_dialog_def
      arrived_def)

theorem createNotebook_catches_witness:
  "fst (createNotebook no_browser (JStr (js ''My Notes'')) initial) = Inl launch_failed \<and>
   fst (createNotebook no_dialog (JStr (js ''My Notes'')) initial) =
     Inr (create_failed_message timed_out) \<and>
   js_includes (create_failed_message timed_out)
     (js ''TimeoutError: Waiting for selector failed: 5000ms exceeded'') \<and>
   fst (createNotebook all_ok (JStr (js ''My Notes'')) initial) =
     Inr (created_message (JStr (js ''My Notes''))) \<and>
   js_includes (created_message (JStr (js ''My Notes''))) (js ''My Notes'')"
proof -
  have shown: "exn_text timed_out =
      js ''TimeoutError: Waiting for selector failed: 5000ms exceeded''"
    by (simp add: timed_out_def)
  have "fst (createNotebook no_browser (JStr (js ''My Notes'')) initial) = Inl launch_failed"
    using createNotebook_catches [where w = no_browser and s = initial and title = "JStr (js ''My Notes'')"]
      reach_app_no_browser
    by (cases "reach_app no_browser initial") auto
  moreover have "fst (createNotebook no_dialog (JStr (js ''My Notes'')) initial) =
      Inr (create_failed_message timed_out) \<and>
    js_includes (create_failed_message timed_out) (exn_text timed_out)"
    using createNotebook_catches [where w = no_dialog and s = initial and title = "JStr (js ''My Notes'')"]
      createNotebook_body_examples(2)
    by (cases "createNotebook_body no_dialog (JStr (js ''My Notes'')) (Some 2) arrived")
      (auto simp: reach_app_examples)
  moreover have "fst (createNotebook all_ok (JStr (js ''My Notes'')) initial) =
      Inr (created_message (JStr (js ''My Notes''))) \<and>
    js_includes (created_message (JStr (js ''My Notes''))) (to_text (JStr (js ''My Notes'')))"
    using createNotebook_catches [where w = all_ok and s = initial and title = "JStr (js ''My Notes'')"]
      createNotebook_body_examples(1)
    by (cases "createNotebook_body all_ok (JStr (js ''My Notes'')) (Some 2) arrived")
      (auto simp: reach_app_examples)
  ultimately show ?thesis
    by (simp only: shown to_text.simps)
qed


lemma scan_buttons_no_match:
  assumes "\<forall>i<length bs. \<exists>txt.
             text_res w (trace s @ map ElemText (take i bs)) (bs ! i) = Inr txt \<and>
             \<not> button_matches txt"
  shows "scan_buttons w bs s = (Inr (), s\<lparr>trace := trace s @ map ElemText bs\<rparr>)"
  using assms
proof (induction bs arbitrary: s)
  case Nil
  then show ?case by simp
next
  case (Cons b bs)
  from Cons.prems [rule_format, of 0] obtain t0
    where head: "text_res w (trace s) b = Inr t0" "\<not> button_matches t0"
    by auto
  let ?s = "s\<lparr>trace := trace s @ [ElemText b]\<rparr>"
  have "\<forall>i<length bs. \<exists>txt.
          text_res w (trace ?s @ map ElemText (take i bs)) (bs ! i) = Inr txt \<and>
          \<not> button_matches txt"
  proof (intro allI impI)
    fix i
    assume "i < length bs"
    with Cons.prems [rule_format, of "Suc i"] show "\<exists>txt.
        text_res w (trace ?s @ map ElemText (take i bs)) (bs ! i) = Inr txt \<and>
        \<not> button_matches txt"
      by simp
  qed
  from Cons.IH [OF this] head show ?case
    by (simp add: await_def elem_textContent_def record_call_def)
qed

lemma createNotebook_body_tail:
  "createNotebook_body w title p =
     await (page_cmd w p (WaitForSelector NEW_NOTEBOOK_WAIT 8000)) (\<lambda>_.
     await (page_queryAll w p (js ''button'')) (\<lambda>buttons.
     await (scan_buttons w buttons) (\<lambda>_.
     await (run_cmds w p
              [WaitForSelector TITLE_INPUT 5000, KeyboardType title,
               KeyboardPress (js ''Enter'')]) (\<lambda>_.
     ret (created_message title)))))"
  by (auto simp: createNotebook_body_def await_def fun_eq_iff split: prod.splits sum.splits)

lemma no_click_filter:
  "filter is_click (map ElemText bs) = []"
  "filter is_click (map (PageCmd h) (take k [WaitForSelector a n, KeyboardType v, KeyboardPress key])) = []"
proof -
  show "filter is_click (map ElemText bs) = []"
    by (induction bs) auto
  have "k = 0 \<or> k = 1 \<or> k = 2 \<or> 3 \<le> k"
    by arith
  then show "filter is_click (map (PageCmd h)
      (take k [WaitForSelector a n, KeyboardType v, KeyboardPress key])) = []"
    by (auto simp: take_Suc_Cons numeral_2_eq_2 numeral_3_eq_3)
qed

text \<open>
  Claim C9. Let \<^verbatim>\<open>createNotebook\<close> have obtained the page, logged in and navigated;
  let the wait for the new-notebook affordance succeed and the button query return
  \<open>bs\<close>; and let every button, when the loop reads it, have a text that is \<^verbatim>\<open>null\<close>,
  empty or without the label. Then the loop reads every button and clicks none: the calls
  made after the query are the reads of the buttons followed by an initial part, at least
  the first, of waiting for the title input, typing the title and pressing Enter, and no
  click is among the calls made since the navigation. When these three calls succeed, the
  result is the success message for the title.
\<close>

theorem createNotebook_no_button:
  assumes "reach_app w s = (Inr (Some h), s1)"
    and "cmd_res w (trace s1) h (WaitForSelector NEW_NOTEBOOK_WAIT 8000) = None"
    and "query_res w (trace s1 @ [PageCmd h (WaitForSelector NEW_NOTEBOOK_WAIT 8000)]) h
           (js ''button'') = Inr bs"
    and "queried = trace s1 @ [PageCmd h (WaitForSelector NEW_NOTEBOOK_WAIT 8000),
                               QueryAll h (js ''button'')]"
    and "\<forall>i<length bs. \<exists>txt.
           text_res w (queried @ map ElemText (take i bs)) (bs ! i) = Inr txt \<and>
           \<not> button_matches txt"
    and "scanned = queried @ map ElemText bs"
    and "createNotebook w title s = (r, s')"
  shows "(\<exists>k. 1 \<le> k \<and> k \<le> 3 \<and>
            trace s' = scanned @ map (PageCmd h)
              (take k [WaitForSelector TITLE_INPUT 5000, KeyboardType title,
                       KeyboardPress (js ''Enter'')])) \<and>
         filter is_click (drop (length (trace s1)) (trace s')) = [] \<and>
         (cmd_res w scanned h (WaitForSelector TITLE_INPUT 5000) = None \<and>
          cmd_res w (scanned @ [PageCmd h (WaitForSelector TITLE_INPUT 5000)]) h
            (KeyboardType title) = None \<and>
          cmd_res w (scanned @ [PageCmd h (WaitForSelector TITLE_INPUT 5000),
                                PageCmd h (KeyboardType title)]) h
            (KeyboardPress (js ''Enter'')) = None \<longrightarrow>
          r = Inr (created_message title) \<and>
          trace s' = scanned @ map (PageCmd h)
            [WaitForSelector TITLE_INPUT 5000, KeyboardType title, KeyboardPress (js ''Enter'')])"
proof -
  let ?later = "[WaitForSelector TITLE_INPUT 5000, KeyboardType title, KeyboardPress (js ''Enter'')]"
  let ?q = "s1\<lparr>trace := queried\<rparr>"
  let ?sc = "s1\<lparr>trace := scanned\<rparr>"
  have scan: "scan_buttons w bs ?q = (Inr (), ?sc)"
    using scan_buttons_no_match [of bs w ?q] assms(5,6) by simp
  obtain rr s2 where tail: "run_cmds w (Some h) ?later ?sc = (rr, s2)"
    by (cases "run_cmds w (Some h) ?later ?sc") auto
  have body: "createNotebook_body w title (Some h) s1 =
      (case rr of Inl e \<Rightarrow> Inl e | Inr u \<Rightarrow> Inr (created_message title), s2)"
    using assms(2,3,4) scan tail
    by (simp add: createNotebook_body_tail await_def page_cmd_Some page_queryAll_def
        record_call_def split: sum.splits)
  have whole: "createNotebook w title s =
      (case rr of Inl e \<Rightarrow> Inr (create_failed_message e) | Inr u \<Rightarrow> Inr (created_message title),
       s2)"
    using assms(1) body by (simp add: createNotebook_reach try_catch_def split: sum.splits)
  with assms(7) have s': "s' = s2"
    and r: "r = (case rr of Inl e \<Rightarrow> Inr (create_failed_message e)
                 | Inr u \<Rightarrow> Inr (created_message title))"
    by simp_all
  from run_cmds_trace [OF tail] obtain k where "k \<le> length ?later"
    "?later = [] \<or> 1 \<le> k" "trace s2 = trace ?sc @ map (PageCmd h) (take k ?later)"
    by blast
  then have k: "k \<le> 3" "1 \<le> k" "trace s2 = scanned @ map (PageCmd h) (take k ?later)"
    by simp_all
  have first: "\<exists>k. 1 \<le> k \<and> k \<le> 3 \<and> trace s' = scanned @ map (PageCmd h) (take k ?later)"
    using k s' by blast
  have "drop (length (trace s1)) (trace s') =
      [PageCmd h (WaitForSelector NEW_NOTEBOOK_WAIT 8000), QueryAll h (js ''button'')] @
      map ElemText bs @ map (PageCmd h) (take k ?later)"
    using k(3) s' assms(4,6) by simp
  then have second: "filter is_click (drop (length (trace s1)) (trace s')) = []"
    by (simp only: filter_append no_click_filter) simp
  have third: "r = Inr (created_message title) \<and> trace s' = scanned @ map (PageCmd h) ?later"
    if "cmd_res w scanned h (WaitForSelector TITLE_INPUT 5000) = None"
      "cmd_res w (scanned @ [PageCmd h (WaitForSelector TITLE_INPUT 5000)]) h
         (KeyboardType title) = None"
      "cmd_res w (scanned @ [PageCmd h (WaitForSelector TITLE_INPUT 5000),
                             PageCmd h (KeyboardType title)]) h
         (KeyboardPress (js ''Enter'')) = None"
    using that tail r s' by (auto simp: await_def page_cmd_Some)
  from first second third show ?thesis
    by blast
qed


theorem createNotebook_no_button_witness:
  "reach_app all_ok initial = (Inr (Some 2), arrived) \<and>
   cmd_res all_ok (trace arrived) 2 (WaitForSelector NEW_NOTEBOOK_WAIT 8000) = None \<and>
   query_res all_ok (trace arrived @ [PageCmd 2 (WaitForSelector NEW_NOTEBOOK_WAIT 8000)]) 2
     (js ''button'') = Inr [7, 8] \<and>
   text_res all_ok
     (trace arrived @ [PageCmd 2 (WaitForSelector NEW_NOTEBOOK_WAIT 8000),
                       QueryAll 2 (js ''button'')]) 7 = Inr (Some (js ''Settings'')) \<and>
   \<not> button_matches (Some (js ''Settings'')) \<and>
   text_res all_ok
     (trace arrived @ [PageCmd 2 (WaitForSelector NEW_NOTEBOOK_WAIT 8000),
                       QueryAll 2 (js ''button''), ElemText 7]) 8 = Inr None \<and>
   \<not> button_matches None \<and>
   fst (createNotebook all_ok (JStr (js ''My Notes'')) initial) =
     Inr (created_message (JStr (js ''My Notes''))) \<and>
   trace (snd (createNotebook all_ok (JStr (js ''My Notes'')) initial)) =
     trace arrived @
     [PageCmd 2 (WaitForSelector NEW_NOTEBOOK_WAIT 8000), QueryAll 2 (js ''button''),
      ElemText 7, ElemText 8, PageCmd 2 (WaitForSelector TITLE_INPUT 5000),
      PageCmd 2 (KeyboardType (JStr (js ''My Notes''))), PageCmd 2 (KeyboardPress (js ''Enter''))]"
proof -
  let ?q = "trace arrived @ [PageCmd 2 (WaitForSelector NEW_NOTEBOOK_WAIT 8000),
                             QueryAll 2 (js ''button'')]"
  have a: "cmd_res all_ok (trace arrived) 2 (WaitForSelector NEW_NOTEBOOK_WAIT 8000) = None"
    by (simp add: all_ok_def)
  have b: "query_res all_ok (trace arrived @ [PageCmd 2 (WaitForSelector NEW_NOTEBOOK_WAIT 8000)])
      2 (js ''button'') = Inr [7, 8]"
    by (simp add: all_ok_def)
  have c: "\<forall>i<length [7, 8 :: nat]. \<exists>txt.
      text_res all_ok (?q @ map ElemText (take i [7, 8])) ([7, 8] ! i) = Inr txt \<and>
      \<not> button_matches txt"
    by (simp add: all_ok_def button_matches_def less_Suc_eq numeral_2_eq_2 nth_Cons')
  have d: "cmd_res all_ok c1 2 c2 = None" for c1 c2
    by (simp add: all_ok_def)
  have run: "createNotebook all_ok (JStr (js ''My Notes'')) initial =
      (fst (createNotebook all_ok (JStr (js ''My Notes'')) initial),
       snd (createNotebook all_ok (JStr (js ''My Notes'')) initial))"
    by simp
  have texts: "text_res all_ok ?q 7 = Inr (Some (js ''Settings''))"
    "\<not> button_matches (Some (js ''Settings''))"
    "text_res all_ok (?q @ [ElemText 7]) 8 = Inr None" "\<not> button_matches None"
    by (simp_all add: all_ok_def button_matches_def)
  from createNotebook_no_button [OF reach_app_examples(1) a b refl c refl run] d
    reach_app_examples(1) a b texts
  show ?thesis
    by simp
qed

subsection \<open>The module state\<close>

lemma keeps_ret: "keeps (ret x)"
  by (simp add: keeps_def)

lemma keeps_await: "keeps m \<Longrightarrow> (\<And>x. keeps (k x)) \<Longrightarrow> keeps (await m k)"
  unfolding keeps_def await_def
  by (auto split: prod.splits sum.splits) (metis snd_conv)+

lemma keeps_try_catch: "keeps m \<Longrightarrow> (\<And>e. keeps (h e)) \<Longrightarrow> keeps (try_catch m h)"
  unfolding keeps_def try_catch_def
  by (auto split: prod.splits sum.splits) (metis snd_conv)+

lemma keeps_if: "keeps a \<Longrightarrow> keeps b \<Longrightarrow> keeps (if c then a else b)"
  by simp

lemma keeps_calls:
  "keeps (page_cmd w p c)" "keeps (page_url w p)" "keeps (page_queryAll w p sel)"
  "keeps (page_evalAll w p sel)" "keeps (elem_textContent w el)" "keeps (elem_click w el)"
  by (auto simp: keeps_def page_cmd_def page_url_def page_queryAll_def page_evalAll_def
      elem_textContent_def elem_click_def record_call_def split: option.splits)

lemma keeps_scan_buttons: "keeps (scan_buttons w bs)"
  by (induction bs) (auto simp del: ret_apply intro!: keeps_ret keeps_await keeps_calls)

lemma keeps_loginToGoogle: "keeps (loginToGoogle w p)"
  unfolding loginToGoogle_def
  by (intro keeps_await keeps_if keeps_ret keeps_calls)

lemma keeps_createNotebook_body: "keeps (createNotebook_body w title p)"
  unfolding createNotebook_body_def
  by (intro keeps_await keeps_ret keeps_calls keeps_scan_buttons)

lemma keeps_listNotebooks_body: "keeps (listNotebooks_body w p)"
  unfolding listNotebooks_body_def Let_def
  by (intro keeps_await keeps_if keeps_ret keeps_calls)

lemma initBrowser_page_known:
  assumes "page_known s" and "initBrowser w s = (r, s1)"
  shows "page_known s1 \<or> browser s = None \<and> page_creation_throws w s"
proof (cases "browser s")
  case None
  with assms(2) show ?thesis
    by (auto simp: initBrowser_first page_known_def page_creation_throws_def split: sum.splits)
next
  case (Some b)
  with assms show ?thesis
    by (auto simp: initBrowser_reuse)
qed

lemma after_initBrowser:
  assumes "page_known s" and "\<And>p. keeps (k p)" and "await (initBrowser w) k s = (r, s')"
  shows "page_known s' \<or> browser s = None \<and> page_creation_throws w s"
proof (cases "initBrowser w s")
  case (Pair x s1)
  from initBrowser_page_known [OF assms(1) Pair]
  have first: "page_known s1 \<or> browser s = None \<and> page_creation_throws w s" .
  show ?thesis
  proof (cases x)
    case (Inl e)
    with Pair assms(3) have "s' = s1"
      by (simp add: await_def)
    with first show ?thesis by simp
  next
    case (Inr p)
    with Pair assms(3) have "k p s1 = (r, s')"
      by (simp add: await_def)
    with assms(2) [of p] have "browser s' = browser s1" "page s' = page s1"
      unfolding keeps_def by (metis snd_conv)+
    with first show ?thesis
      by (auto simp: page_known_def)
  qed
qed

lemma callTool_page_known:
  assumes "page_known s" and "callTool w request s = (r, s')"
  shows "page_known s' \<or> browser s = None \<and> page_creation_throws w s"
proof -
  consider (create) "params_name request = js ''create_notebook''"
    | (list) "params_name request \<noteq> js ''create_notebook''"
        "params_name request = js ''list_notebooks''"
    | (opened) "params_name request \<noteq> js ''create_notebook''"
        "params_name request \<noteq> js ''list_notebooks''"
        "params_name request = js ''open_notebooklm''"
    | (other) "params_name request \<noteq> js ''create_notebook''"
        "params_name request \<noteq> js ''list_notebooks''"
        "params_name request \<noteq> js ''open_notebooklm''"
    by blast
  then show ?thesis
  proof cases
    case create
    show ?thesis
    proof (cases "params_arguments request")
      case None
      with create assms show ?thesis
        by (simp add: callTool_def read_title_def await_def)
    next
      case (Some title)
      with create have "callTool w request =
          await (initBrowser w) (\<lambda>p.
          await (loginToGoogle w p) (\<lambda>_.
          await (page_cmd w p (Goto APP_URL NETWORKIDLE2)) (\<lambda>_.
          await (try_catch (createNotebook_body w title p) (\<lambda>e. ret (create_failed_message e)))
            (\<lambda>result. ret (text_response result)))))"
        by (simp only: callTool_def read_title_def createNotebook_def await_assoc await_ret_left
            option.case simp_thms if_True)
      with assms show ?thesis
        by (intro after_initBrowser [where r = r and s' = s'])
          (auto simp del: ret_apply intro!: keeps_await keeps_try_catch keeps_ret keeps_calls
            keeps_loginToGoogle keeps_createNotebook_body)
    qed
  next
    case list
    then have "callTool w request =
        await (initBrowser w) (\<lambda>p.
        await (loginToGoogle w p) (\<lambda>_.
        await (page_cmd w p (Goto APP_URL NETWORKIDLE2)) (\<lambda>_.
        await (try_catch (listNotebooks_body w p) (\<lambda>e. ret (list_failed_message e)))
          (\<lambda>result. ret (text_response result)))))"
      by (simp only: callTool_def listNotebooks_def await_assoc simp_thms if_True if_False)
    with assms show ?thesis
      by (intro after_initBrowser [where r = r and s' = s'])
        (auto simp del: ret_apply intro!: keeps_await keeps_try_catch keeps_ret keeps_calls
          keeps_loginToGoogle keeps_listNotebooks_body)
  next
    case opened
    then have "callTool w request =
        await (initBrowser w) (\<lambda>p.
        await (loginToGoogle w p) (\<lambda>_. ret (text_response opened_message)))"
      by (simp only: callTool_def simp_thms if_True if_False)
    with assms show ?thesis
      by (intro after_initBrowser [where r = r and s' = s'])
        (auto simp del: ret_apply intro!: keeps_await keeps_ret keeps_loginToGoogle)
  next
    case other
    with assms show ?thesis
      by (simp add: callTool_def)
  qed
qed


lemma run_calls_page_known:
  assumes "\<And>l b. \<exists>pg. newPage_res w l b = Inr pg" and "page_known s"
  shows "page_known (run_calls w requests s)"
  using assms(2)
proof (induction requests arbitrary: s)
  case Nil
  then show ?case by simp
next
  case (Cons request rest)
  have "\<not> page_creation_throws w s"
    using assms(1) [of "trace s @ [LAUNCH]"]
    by (auto simp: page_creation_throws_def split: sum.splits) (metis Inl_Inr_False)
  with callTool_page_known [OF Cons.prems, of w request]
  have "page_known (snd (callTool w request s))"
    by (cases "callTool w request s") auto
  from Cons.IH [OF this] show ?case
    by simp
qed

text \<open>
  Claim C10. From a state where a held browser comes with its page: a call of
  \<^verbatim>\<open>initBrowser\<close> that returns never returns \<^verbatim>\<open>null\<close> and leaves such a state; every
  request served by the call handler leaves such a state, unless no browser was held and
  the opening of the page throws after the launch has returned a browser. In that case
  \<^verbatim>\<open>initBrowser\<close> throws with \<^verbatim>\<open>browser\<close> assigned and \<^verbatim>\<open>page\<close> as it was, and
  the next call makes no call to the library, assigns nothing and returns that old
  \<^verbatim>\<open>page\<close>.
\<close>

theorem module_state_invariant:
  assumes "page_known s"
  shows "(\<forall>p s1. initBrowser w s = (Inr p, s1) \<longrightarrow> p \<noteq> None \<and> page_known s1) \<and>
         (\<forall>r s'. callTool w request s = (r, s') \<longrightarrow>
            page_known s' \<or> browser s = None \<and> page_creation_throws w s) \<and>
         (\<forall>b e. browser s = None \<and> launch_res w (trace s) = Inr b \<and>
                newPage_res w (trace s @ [LAUNCH]) b = Inl e \<longrightarrow>
            (\<exists>s1. initBrowser w s = (Inl e, s1) \<and> browser s1 = Some b \<and> page s1 = page s \<and>
                  trace s1 = trace s @ [LAUNCH, NewPage b] \<and>
                  initBrowser w s1 = (Inr (page s), s1)))"
proof -
  have returned: "p \<noteq> None \<and> page_known s1" if run: "initBrowser w s = (Inr p, s1)" for p s1
  proof (cases "browser s")
    case None
    with run show ?thesis
      by (auto simp: initBrowser_first page_known_def split: sum.splits)
  next
    case (Some b)
    with run assms show ?thesis
      by (auto simp: initBrowser_reuse page_known_def)
  qed
  have served: "page_known s' \<or> browser s = None \<and> page_creation_throws w s"
    if "callTool w request s = (r, s')" for r s'
    using assms that by (rule callTool_page_known)
  have thrown: "\<exists>s1. initBrowser w s = (Inl e, s1) \<and> browser s1 = Some b \<and>
      page s1 = page s \<and> trace s1 = trace s @ [LAUNCH, NewPage b] \<and>
      initBrowser w s1 = (Inr (page s), s1)"
    if fails: "browser s = None \<and> launch_res w (trace s) = Inr b \<and>
      newPage_res w (trace s @ [LAUNCH]) b = Inl e" for b e
  proof -
    let ?s1 = "s\<lparr>browser := Some b, trace := trace s @ [LAUNCH, NewPage b]\<rparr>"
    from fails have "initBrowser w s = (Inl e, ?s1)"
      by (simp add: initBrowser_first)
    moreover have "initBrowser w ?s1 = (Inr (page s), ?s1)"
      by (simp add: initBrowser_reuse)
    ultimately show ?thesis
      by (intro exI [of _ ?s1]) simp
  qed
  from returned served thrown show ?thesis
    by blast
qed

theorem module_state_invariant_witness:
  "browser initial = None \<and> page initial = None \<and>
   initBrowser all_ok initial =
     (Inr (Some 2), \<lparr>browser = Some 5, page = Some 2, trace = [LAUNCH, NewPage 5]\<rparr>) \<and>
   browser (snd (callTool all_ok
                   \<lparr>params_name = js ''open_notebooklm'', params_arguments = None\<rparr>
                   initial)) = Some 5 \<and>
   page (snd (callTool all_ok
                \<lparr>params_name = js ''open_notebooklm'', params_arguments = None\<rparr>
                initial)) \<noteq> None \<and>
   launch_res no_page (trace initial) = Inr 5 \<and>
   newPage_res no_page (trace initial @ [LAUNCH]) 5 = Inl page_failed \<and>
   initBrowser no_page initial =
     (Inl page_failed, \<lparr>browser = Some 5, page = None, trace = [LAUNCH, NewPage 5]\<rparr>) \<and>
   initBrowser no_page \<lparr>browser = Some 5, page = None, trace = [LAUNCH, NewPage 5]\<rparr> =
     (Inr None, \<lparr>browser = Some 5, page = None, trace = [LAUNCH, NewPage 5]\<rparr>)"
proof -
  let ?req = "\<lparr>params_name = js ''open_notebooklm'', params_arguments = None\<rparr>"
  have start: "browser initial = None \<and> page initial = None"
    by (simp add: initial_def)
  then have inv: "page_known initial"
    by (simp add: page_known_def)
  have first: "initBrowser all_ok initial =
      (Inr (Some 2), \<lparr>browser = Some 5, page = Some 2, trace = [LAUNCH, NewPage 5]\<rparr>)"
    by (simp add: initBrowser_first initial_def all_ok_def)
  have fine: "\<not> page_creation_throws all_ok initial"
    by (simp add: page_creation_throws_def all_ok_def)
  have fails: "browser initial = None \<and> launch_res no_page (trace initial) = Inr 5 \<and>
      newPage_res no_page (trace initial @ [LAUNCH]) 5 = Inl page_failed"
    by (simp add: initial_def no_page_def all_ok_def)
  have broken: "initBrowser no_page initial =
      (Inl page_failed, \<lparr>browser = Some 5, page = None, trace = [LAUNCH, NewPage 5]\<rparr>)"
    by (simp add: initBrowser_first initial_def no_page_def all_ok_def)
  have run: "callTool all_ok ?req initial =
      (fst (callTool all_ok ?req initial), snd (callTool all_ok ?req initial))"
    by simp
  have held: "browser (snd (callTool all_ok ?req initial)) = Some 5"
    by (simp add: callTool_def await_def initBrowser_first initial_def loginToGoogle_def
        page_cmd_Some page_url_Some all_ok_def)
  note good = module_state_invariant [OF inv, of all_ok ?req]
  note bad = module_state_invariant [OF inv, of no_page ?req]
  from good run fine have "page_known (snd (callTool all_ok ?req initial))"
    by blast
  with held have "page (snd (callTool all_ok ?req initial)) \<noteq> None"
    by (simp add: page_known_def)
  moreover from bad fails broken
  have "initBrowser no_page \<lparr>browser = Some 5, page = None, trace = [LAUNCH, NewPage 5]\<rparr> =
      (Inr None, \<lparr>browser = Some 5, page = None, trace = [LAUNCH, NewPage 5]\<rparr>)"
    by (auto simp: initial_def)
  ultimately show ?thesis
    using start first held fails broken by blast
qed

end
